theory Spec2Isabelle
  imports Main "HOL-Library.Sublist"
begin

section \<open>Strings\<close>

text \<open>
  JavaScript strings are modelled as byte strings (\<open>char list\<close>); the model is exact on
  ASCII text, and a character beyond ASCII stands for the bytes of its UTF-8 encoding.
  \<open>toLowerCase\<close> and \<open>trim\<close> are the ASCII parts of the JavaScript methods.
\<close>

definition lower_char :: "char \<Rightarrow> char" where
  "lower_char c =
     (let n = (of_char c :: nat) in if 65 \<le> n \<and> n \<le> 90 then char_of (n + 32) else c)"

definition toLowerCase :: "string \<Rightarrow> string" where
  "toLowerCase s = map lower_char s"

definition is_space :: "char \<Rightarrow> bool" where
  "is_space c = (let n = (of_char c :: nat) in n = 32 \<or> (9 \<le> n \<and> n \<le> 13))"

definition trim :: "string \<Rightarrow> string" where
  "trim s = rev (dropWhile is_space (rev (dropWhile is_space s)))"

definition startsWith :: "string \<Rightarrow> string \<Rightarrow> bool" where
  "startsWith s p = prefix p s"

definition endsWith :: "string \<Rightarrow> string \<Rightarrow> bool" where
  "endsWith s p = suffix p s"

fun str_includes :: "string \<Rightarrow> string \<Rightarrow> bool" where
  "str_includes [] t = (t = [])"
| "str_includes (x # xs) t = (prefix t (x # xs) \<or> str_includes xs t)"

text \<open>\<open>s.replace(/c$/, "")\<close> for a single character \<open>c\<close>: one trailing \<open>c\<close> is dropped.\<close>

definition strip_last :: "char \<Rightarrow> string \<Rightarrow> string" where
  "strip_last c s = (if s \<noteq> [] \<and> last s = c then butlast s else s)"

text \<open>\<open>s.replace(/^c?/, "")\<close>: one leading \<open>c\<close> is dropped.\<close>

definition strip_first :: "char \<Rightarrow> string \<Rightarrow> string" where
  "strip_first c s = (case s of [] \<Rightarrow> [] | x # xs \<Rightarrow> if x = c then xs else s)"

fun split_on :: "char \<Rightarrow> string \<Rightarrow> string list" where
  "split_on c [] = [[]]"
| "split_on c (x # xs) =
     (if x = c then [] # split_on c xs
      else (case split_on c xs of [] \<Rightarrow> [[x]] | y # ys \<Rightarrow> (x # y) # ys))"

section \<open>The query-string codec of \<open>URLSearchParams\<close>\<close>

text \<open>
  The \<open>application/x-www-form-urlencoded\<close> parser and serializer of the URL standard,
  which \<open>URLSearchParams\<close> uses: the parser splits on \<open>&\<close>, skips empty pieces, splits
  each piece at its first \<open>=\<close>, turns \<open>+\<close> into a space and percent-decodes; the
  serializer writes a space as \<open>+\<close>, keeps letters, digits and \<open>* - . _\<close>, and writes
  every other byte as \<open>%XX\<close>.
\<close>

definition hex_digit :: "nat \<Rightarrow> char" where
  "hex_digit n = (if n < 10 then char_of (48 + n) else char_of (55 + n))"

definition hex_val :: "char \<Rightarrow> nat option" where
  "hex_val c =
     (let n = (of_char c :: nat) in
      if 48 \<le> n \<and> n \<le> 57 then Some (n - 48)
      else if 65 \<le> n \<and> n \<le> 70 then Some (n - 55)
      else if 97 \<le> n \<and> n \<le> 102 then Some (n - 87)
      else None)"

fun percent_decode :: "string \<Rightarrow> string" where
  "percent_decode (c # h # l # rest) =
     (if c = CHR ''%'' then
        (case (hex_val h, hex_val l) of
           (Some a, Some b) \<Rightarrow> char_of (16 * a + b) # percent_decode rest
         | _ \<Rightarrow> c # percent_decode (h # l # rest))
      else c # percent_decode (h # l # rest))"
| "percent_decode [c, h] = c # percent_decode [h]"
| "percent_decode [c] = [c]"
| "percent_decode [] = []"

definition plus_to_space :: "string \<Rightarrow> string" where
  "plus_to_space s = map (\<lambda>c. if c = CHR ''+'' then CHR '' '' else c) s"

definition parse_pair :: "string \<Rightarrow> string \<times> string" where
  "parse_pair piece =
     (let name = takeWhile (\<lambda>c. c \<noteq> CHR ''='') piece;
          val = drop (Suc (length name)) piece
      in (percent_decode (plus_to_space name), percent_decode (plus_to_space val)))"

definition qs_parse :: "string \<Rightarrow> (string \<times> string) list" where
  "qs_parse s = map parse_pair (filter (\<lambda>piece. piece \<noteq> []) (split_on CHR ''&'' s))"

definition url_safe :: "char \<Rightarrow> bool" where
  "url_safe c =
     (let n = (of_char c :: nat) in
        (48 \<le> n \<and> n \<le> 57) \<or> (65 \<le> n \<and> n \<le> 90) \<or> (97 \<le> n \<and> n \<le> 122) \<or>
        n = 42 \<or> n = 45 \<or> n = 46 \<or> n = 95)"

definition encode_byte :: "char \<Rightarrow> string" where
  "encode_byte c =
     (if c = CHR '' '' then ''+''
      else if url_safe c then [c]
      else [CHR ''%'', hex_digit (of_char c div 16), hex_digit (of_char c mod 16)])"

definition byte_serialize :: "string \<Rightarrow> string" where
  "byte_serialize s = concat (map encode_byte s)"

fun join_amp :: "string list \<Rightarrow> string" where
  "join_amp [] = []"
| "join_amp [x] = x"
| "join_amp (x # y # ys) = x @ CHR ''&'' # join_amp (y # ys)"

definition pair_text :: "string \<times> string \<Rightarrow> string" where
  "pair_text kv = byte_serialize (fst kv) @ CHR ''='' # byte_serialize (snd kv)"

definition qs_serialize :: "(string \<times> string) list \<Rightarrow> string" where
  "qs_serialize ps = join_amp (map pair_text ps)"

section \<open>URL objects\<close>

text \<open>
  A URL record of the URL standard, for hierarchical URLs without credentials: the
  scheme (without the colon), host, port (empty when absent or default), path, and the
  optional query and fragment (\<open>None\<close> is the standard's null, which serializes without
  \<open>?\<close> or \<open>#\<close>; \<open>Some []\<close> serializes as a lone \<open>?\<close> or \<open>#\<close>).
  A JavaScript \<open>URL\<close> object is the record together with the list of its
  \<open>searchParams\<close> object, which the setters below keep in step with the query.
\<close>

record url =
  scheme :: string
  hostname :: string
  port :: string
  pathname :: string
  query :: "string option"
  fragment :: "string option"

record urlobj = url +
  searchParams :: "(string \<times> string) list"

definition href :: "'a url_scheme \<Rightarrow> string" where
  "href u =
     scheme u @ ''://'' @ hostname u @ (if port u = [] then [] else CHR '':'' # port u) @
     pathname u @
     (case query u of None \<Rightarrow> [] | Some q \<Rightarrow> CHR ''?'' # q) @
     (case fragment u of None \<Rightarrow> [] | Some f \<Rightarrow> CHR ''#'' # f)"

definition non_empty :: "string \<Rightarrow> string option" where
  "non_empty s = (if s = [] then None else Some s)"

definition of_option :: "string option \<Rightarrow> string" where
  "of_option x = (case x of None \<Rightarrow> [] | Some s \<Rightarrow> s)"

text \<open>\<open>new URL(s)\<close>, given the platform's parser: the list is parsed from the query.\<close>

definition new_URL :: "(string \<Rightarrow> url option) \<Rightarrow> string \<Rightarrow> urlobj option" where
  "new_URL parse s =
     (case parse s of
        None \<Rightarrow> None
      | Some u \<Rightarrow> Some (url.extend u
          (urlobj.fields (qs_parse (of_option (query u))))))"

text \<open>\<open>u.searchParams.get(name)\<close>: the first value of that name, or null.\<close>

definition sp_get :: "urlobj \<Rightarrow> string \<Rightarrow> string option" where
  "sp_get u name = map_of (searchParams u) name"

text \<open>
  \<open>u.searchParams.delete(name)\<close>: every pair of that name leaves the list, and the
  query becomes the serialized list (null when that is empty).
\<close>

definition sp_delete :: "urlobj \<Rightarrow> string \<Rightarrow> urlobj" where
  "sp_delete u name =
     (let ps = filter (\<lambda>(k, v). k \<noteq> name) (searchParams u)
      in u\<lparr>query := non_empty (qs_serialize ps), searchParams := ps\<rparr>)"

text \<open>
  \<open>u.search = x ? "?" + x : ""\<close> for a serialized list \<open>x\<close>: an empty string sets the
  query to null; otherwise the query is \<open>x\<close> (the serializer's output has no byte of the
  query percent-encode set) and the list is parsed again from it.
\<close>

definition set_search :: "urlobj \<Rightarrow> string \<Rightarrow> urlobj" where
  "set_search u x = u\<lparr>query := non_empty x, searchParams := qs_parse x\<rparr>"

text \<open>The \<open>hash\<close> getter: empty for a null or empty fragment, else \<open>#\<close> and the fragment.\<close>

definition hash_of :: "urlobj \<Rightarrow> string" where
  "hash_of u = (case fragment u of None \<Rightarrow> [] | Some f \<Rightarrow> if f = [] then [] else CHR ''#'' # f)"

text \<open>\<open>u.hash = x ? "#" + x : ""\<close> for a serialized list \<open>x\<close>.\<close>

definition set_hash :: "urlobj \<Rightarrow> string \<Rightarrow> urlobj" where
  "set_hash u x = u\<lparr>fragment := non_empty x\<rparr>"

text \<open>\<open>new URLSearchParams(s)\<close>: one leading \<open>?\<close> is dropped before parsing.\<close>

definition new_URLSearchParams :: "string \<Rightarrow> (string \<times> string) list" where
  "new_URLSearchParams s = qs_parse (strip_first CHR ''?'' s)"

text \<open>
  The shared last step of both cleaners (\<open>normalizeUrl\<close> in the rule engine, written
  inline in the heuristic cleaner): the search is set from the serialized list, and one
  trailing \<open>?\<close>, then one trailing \<open>#\<close>, is dropped from the serialized URL.
\<close>

definition normalize_search :: "urlobj \<Rightarrow> urlobj" where
  "normalize_search u = set_search u (qs_serialize (searchParams u))"

definition strip_trailing :: "string \<Rightarrow> string" where
  "strip_trailing s = strip_last CHR ''#'' (strip_last CHR ''?'' s)"

definition normalizeUrl :: "urlobj \<Rightarrow> string" where
  "normalizeUrl u = strip_trailing (href (normalize_search u))"

section \<open>The platform\<close>

text \<open>
  What the code takes from its JavaScript host: the URL parser (\<open>None\<close> when
  \<open>new URL\<close> throws), the regular-expression engine (\<open>rx_compile source flags\<close> is
  \<open>None\<close> when \<open>new RegExp\<close> throws; \<open>rx_test\<close> is \<open>re.test(s)\<close>; \<open>rx_group1\<close> is
  \<open>re.exec(s)?.[1]\<close>; \<open>rx_remove_all\<close> is \<open>s.replace(re, "")\<close> for a global \<open>re\<close>) and
  \<open>decodeURIComponent\<close> (\<open>None\<close> when it throws). The cleaners are functions of it.
\<close>

record 're platform =
  url_parse :: "string \<Rightarrow> url option"
  rx_compile :: "string \<Rightarrow> string \<Rightarrow> 're option"
  rx_test :: "'re \<Rightarrow> string \<Rightarrow> bool"
  rx_group1 :: "'re \<Rightarrow> string \<Rightarrow> string option"
  rx_remove_all :: "'re \<Rightarrow> string \<Rightarrow> string"
  decodeURIComponent :: "string \<Rightarrow> string option"

datatype error = InvalidURL | RulesNotAvailable

record clean_result =
  url :: string
  changed :: bool
  unwrappedFrom :: "string option"
  error :: "error option"

section \<open>The rule-engine cleaner\<close>

text \<open>
  A provider of the ruleset. The list fields are optional in the JSON: the code reads
  each through \<open>Array.isArray\<close>, so an absent field is \<open>None\<close>.
\<close>

record provider =
  urlPattern :: string
  exceptions :: "string list option"
  redirections :: "string list option"
  rules :: "string list option"
  referralMarketing :: "string list option"
  rawRules :: "string list option"

text \<open>
  The \<open>rulesJson\<close> argument: \<open>null\<close>, a value that is not an object, or an object
  whose \<open>providers\<close> field is absent (\<open>None\<close>, as in \<open>{}\<close>) or holds the providers, in
  the order of \<open>Object.values\<close>.
\<close>

datatype rules_json = RNull | RNotObject | RObject "provider list option"

text \<open>
  The options object. The rule engine destructures \<open>allowReferral\<close> only; the heuristic
  cleaner reads \<open>keepParams\<close>, \<open>extraBadParams\<close> and \<open>removeReferral\<close>.
\<close>

record options =
  keepParams :: "string list"
  extraBadParams :: "string list"
  removeReferral :: bool
  allowReferral :: bool

definition default_options :: options where
  "default_options =
     \<lparr>keepParams = [], extraBadParams = [], removeReferral = True, allowReferral = False\<rparr>"

definition asList :: "'a list option \<Rightarrow> 'a list" where
  "asList x = (case x of None \<Rightarrow> [] | Some xs \<Rightarrow> xs)"

text \<open>\<open>safeRegExp(source, flags)\<close> followed by \<open>re ? re.test(s) : false\<close>.\<close>

definition safe_test :: "'re platform \<Rightarrow> string \<Rightarrow> string \<Rightarrow> bool" where
  "safe_test P source s =
     (case rx_compile P source ''i'' of None \<Rightarrow> False | Some re \<Rightarrow> rx_test P re s)"

definition isExcepted :: "'re platform \<Rightarrow> provider \<Rightarrow> string \<Rightarrow> bool" where
  "isExcepted P p s = list_ex (\<lambda>ex. safe_test P ex s) (asList (exceptions p))"

text \<open>The guard at the head of both provider loops: the pattern matches, no exception does.\<close>

definition provider_applies :: "'re platform \<Rightarrow> provider \<Rightarrow> string \<Rightarrow> bool" where
  "provider_applies P p s = (safe_test P (urlPattern p) s \<and> \<not> isExcepted P p s)"

subsection \<open>Pass 1: redirections\<close>

text \<open>
  One redirection regex, tested against \<open>urlStr\<close>; the state is the working URL and
  \<open>wasChanged\<close>. A target that is absent, empty or not a URL leaves the state as it is.
\<close>

definition redirection_step ::
  "'re platform \<Rightarrow> string \<Rightarrow> string \<Rightarrow> urlobj \<times> bool \<Rightarrow> urlobj \<times> bool" where
  "redirection_step P urlStr redir st =
     (case rx_compile P redir ''i'' of
        None \<Rightarrow> st
      | Some re \<Rightarrow>
          (case rx_group1 P re urlStr of
             None \<Rightarrow> st
           | Some target \<Rightarrow>
               if target = [] then st
               else
                 (let next = (case decodeURIComponent P target of
                                None \<Rightarrow> target | Some d \<Rightarrow> d)
                  in case new_URL (url_parse P) next of
                       None \<Rightarrow> st
                     | Some w \<Rightarrow> (w, True))))"

definition redirect_provider ::
  "'re platform \<Rightarrow> string \<Rightarrow> provider \<Rightarrow> urlobj \<times> bool \<Rightarrow> urlobj \<times> bool" where
  "redirect_provider P urlStr p st =
     (if provider_applies P p urlStr
      then fold (redirection_step P urlStr) (asList (redirections p)) st
      else st)"

text \<open>The first loop of \<open>applyClearUrls\<close>; \<open>urlStr\<close> is computed once, before the loop.\<close>

definition redirection_pass ::
  "'re platform \<Rightarrow> provider list \<Rightarrow> urlobj \<Rightarrow> urlobj \<times> bool" where
  "redirection_pass P providers workingUrl =
     (let urlStr = href workingUrl
      in fold (redirect_provider P urlStr) providers (workingUrl, False))"

subsection \<open>Pass 2: parameter removal and raw rules\<close>

definition is_meta :: "char \<Rightarrow> bool" where
  "is_meta c = (c \<in> set (''.*+?^${}()|[]'' @ [CHR 0x5C]))"

text \<open>
  The test that makes an entry a plain name, as the code writes it; \<open>CHR 0x5C\<close> is the
  backslash.
\<close>

definition is_plain_name :: "string \<Rightarrow> bool" where
  "is_plain_name s =
     (\<not> list_ex is_meta s \<and> \<not> str_includes s ''='' \<and> \<not> str_includes s ''['' \<and>
      \<not> str_includes s [CHR 0x5C, CHR ''b''])"

text \<open>The loop that fills \<open>nameSet\<close> and \<open>regexList\<close>.\<close>

definition classify_entry ::
  "'re platform \<Rightarrow> string \<Rightarrow> string list \<times> 're list \<Rightarrow> string list \<times> 're list" where
  "classify_entry P s acc =
     (case acc of (nameSet, regexList) \<Rightarrow>
        if is_plain_name s then (nameSet @ [toLowerCase s], regexList)
        else (case rx_compile P s ''i'' of
                None \<Rightarrow> (nameSet, regexList)
              | Some re \<Rightarrow> (nameSet, regexList @ [re])))"

definition classify :: "'re platform \<Rightarrow> string list \<Rightarrow> string list \<times> 're list" where
  "classify P rawEntries = fold (classify_entry P) rawEntries ([], [])"

definition key_remove :: "'re platform \<Rightarrow> string list \<Rightarrow> 're list \<Rightarrow> string \<Rightarrow> bool" where
  "key_remove P nameSet regexList key =
     (let lower = toLowerCase key
      in if lower \<in> set nameSet then True
         else list_ex (\<lambda>re. rx_test P re lower \<or> rx_test P re (lower @ ''='')) regexList)"

definition remove_key_step ::
  "'re platform \<Rightarrow> string list \<Rightarrow> 're list \<Rightarrow> string \<Rightarrow> urlobj \<times> bool \<Rightarrow> urlobj \<times> bool" where
  "remove_key_step P nameSet regexList key st =
     (if key_remove P nameSet regexList key then (sp_delete (fst st) key, True) else st)"

text \<open>One raw rule: a global, case-insensitive substitution on the serialized URL.\<close>

definition rawRule_step :: "'re platform \<Rightarrow> string \<Rightarrow> urlobj \<times> bool \<Rightarrow> urlobj \<times> bool" where
  "rawRule_step P raw st =
     (case rx_compile P raw ''ig'' of
        None \<Rightarrow> st
      | Some re \<Rightarrow>
          (let beforeStr = href (fst st); afterStr = rx_remove_all P re beforeStr
           in if afterStr \<noteq> beforeStr
              then (case new_URL (url_parse P) afterStr of
                      None \<Rightarrow> st
                    | Some w \<Rightarrow> (w, True))
              else st))"

definition rawEntries_of :: "bool \<Rightarrow> provider \<Rightarrow> string list" where
  "rawEntries_of allowRef p =
     asList (rules p) @ (if \<not> allowRef then asList (referralMarketing p) else [])"

definition remove_params ::
  "'re platform \<Rightarrow> string list \<Rightarrow> urlobj \<times> bool \<Rightarrow> urlobj \<times> bool" where
  "remove_params P rawEntries st =
     (case classify P rawEntries of (nameSet, regexList) \<Rightarrow>
        fold (remove_key_step P nameSet regexList) (map fst (searchParams (fst st))) st)"

definition clean_provider ::
  "'re platform \<Rightarrow> bool \<Rightarrow> provider \<Rightarrow> urlobj \<times> bool \<Rightarrow> urlobj \<times> bool" where
  "clean_provider P allowRef p st =
     (if provider_applies P p (href (fst st))
      then fold (rawRule_step P) (asList (rawRules p))
             (remove_params P (rawEntries_of allowRef p) st)
      else st)"

definition removal_pass ::
  "'re platform \<Rightarrow> bool \<Rightarrow> provider list \<Rightarrow> urlobj \<times> bool \<Rightarrow> urlobj \<times> bool" where
  "removal_pass P allowRef providers st = fold (clean_provider P allowRef) providers st"

subsection \<open>\<open>applyClearUrls\<close>\<close>

definition rules_unavailable :: "string \<Rightarrow> clean_result" where
  "rules_unavailable inputUrl =
     \<lparr>url = inputUrl, changed = False, unwrappedFrom = None, error = Some RulesNotAvailable\<rparr>"

definition invalid_url :: "string \<Rightarrow> clean_result" where
  "invalid_url inputUrl =
     \<lparr>url = inputUrl, changed = False, unwrappedFrom = None, error = Some InvalidURL\<rparr>"

text \<open>
  The body of \<open>applyClearUrls\<close> once the ruleset is accepted, up to the assignment to
  \<open>u.search\<close> in \<open>normalizeUrl\<close>: the final URL object and \<open>wasChanged\<close>, or \<open>None\<close>
  when the input does not parse.
\<close>

definition apply_object ::
  "'re platform \<Rightarrow> string \<Rightarrow> provider list \<Rightarrow> options \<Rightarrow> (urlobj \<times> bool) option" where
  "apply_object P inputUrl providers opts =
     (case new_URL (url_parse P) (trim inputUrl) of
        None \<Rightarrow> None
      | Some workingUrl \<Rightarrow>
          (case removal_pass P (allowReferral opts) providers
                  (redirection_pass P providers workingUrl) of
             (w, wasChanged) \<Rightarrow> Some (normalize_search w, wasChanged)))"

definition apply_providers ::
  "'re platform \<Rightarrow> string \<Rightarrow> provider list \<Rightarrow> options \<Rightarrow> clean_result" where
  "apply_providers P inputUrl providers opts =
     (case apply_object P inputUrl providers opts of
        None \<Rightarrow> invalid_url inputUrl
      | Some (u, wasChanged) \<Rightarrow>
          \<lparr>url = strip_trailing (href u), changed = wasChanged, unwrappedFrom = None,
           error = None\<rparr>)"

definition applyClearUrls ::
  "'re platform \<Rightarrow> string \<Rightarrow> rules_json \<Rightarrow> options \<Rightarrow> clean_result" where
  "applyClearUrls P inputUrl rulesJson opts =
     (case rulesJson of
        RNull \<Rightarrow> rules_unavailable inputUrl
      | RNotObject \<Rightarrow> rules_unavailable inputUrl
      | RObject None \<Rightarrow> rules_unavailable inputUrl
      | RObject (Some providers) \<Rightarrow> apply_providers P inputUrl providers opts)"

section \<open>The heuristic cleaner\<close>

text \<open>
  \<open>trackingConstants.js\<close> is not among the sources: the two lists it exports are
  parameters of the model.
\<close>

record tracking_constants =
  BAD_PARAMS_LIST :: "string list"
  REFERRAL_PARAMS_LIST :: "string list"

definition keep_of :: "options \<Rightarrow> string list" where
  "keep_of opts = map toLowerCase (keepParams opts)"

definition BAD_PARAMS :: "tracking_constants \<Rightarrow> options \<Rightarrow> string list" where
  "BAD_PARAMS C opts =
     BAD_PARAMS_LIST C @ (if removeReferral opts then REFERRAL_PARAMS_LIST C else []) @
     map toLowerCase (extraBadParams opts)"

definition shouldRemove :: "string list \<Rightarrow> string list \<Rightarrow> string \<Rightarrow> bool" where
  "shouldRemove keep bad key =
     (let k = toLowerCase key
      in if k \<in> set keep then False
         else if startsWith k ''utm_'' then True
         else k \<in> set bad)"

text \<open>JavaScript truthiness of \<open>get\<close>'s result, and \<open>a || b\<close> on such results.\<close>

definition truthy :: "string option \<Rightarrow> bool" where
  "truthy x = (case x of None \<Rightarrow> False | Some s \<Rightarrow> s \<noteq> [])"

definition js_or :: "string option \<Rightarrow> string option \<Rightarrow> string option" where
  "js_or a b = (if truthy a then a else b)"

text \<open>
  The three \<open>if\<close> blocks of \<open>unwrapKnownRedirectors\<close>, each giving the target and the
  provider id when it returns.
\<close>

definition google_rule :: "urlobj \<Rightarrow> (string \<times> string) option" where
  "google_rule u =
     (if (endsWith (hostname u) ''google.com'' \<or> endsWith (hostname u) ''google.com.au'') \<and>
         pathname u = ''/url''
      then (let candidate = js_or (sp_get u ''url'') (sp_get u ''q'')
            in if truthy candidate then Some (of_option candidate, ''google'') else None)
      else None)"

definition facebook_rule :: "urlobj \<Rightarrow> (string \<times> string) option" where
  "facebook_rule u =
     (if (hostname u = ''l.facebook.com'' \<or> pathname u = ''/l.php'') \<and> truthy (sp_get u ''u'')
      then Some (of_option (sp_get u ''u''), ''facebook'')
      else None)"

definition instagram_rule :: "urlobj \<Rightarrow> (string \<times> string) option" where
  "instagram_rule u =
     (if endsWith (hostname u) ''instagram.com'' \<and> truthy (sp_get u ''u'')
      then Some (of_option (sp_get u ''u''), ''instagram'')
      else None)"

definition unwrapKnownRedirectors ::
  "(string \<Rightarrow> url option) \<Rightarrow> string \<Rightarrow> string \<times> string option" where
  "unwrapKnownRedirectors parse urlStr =
     (case new_URL parse urlStr of
        None \<Rightarrow> (urlStr, None)
      | Some u \<Rightarrow>
          (case google_rule u of
             Some (target, from) \<Rightarrow> (target, Some from)
           | None \<Rightarrow>
               (case facebook_rule u of
                  Some (target, from) \<Rightarrow> (target, Some from)
                | None \<Rightarrow>
                    (case instagram_rule u of
                       Some (target, from) \<Rightarrow> (target, Some from)
                     | None \<Rightarrow> (urlStr, None)))))"

text \<open>The query loop: the keys are read once, then each key that should go is deleted.\<close>

definition strip_key_step ::
  "string list \<Rightarrow> string list \<Rightarrow> string \<Rightarrow> urlobj \<times> bool \<Rightarrow> urlobj \<times> bool" where
  "strip_key_step keep bad key st =
     (if shouldRemove keep bad key then (sp_delete (fst st) key, True) else st)"

definition strip_query :: "string list \<Rightarrow> string list \<Rightarrow> urlobj \<times> bool \<Rightarrow> urlobj \<times> bool" where
  "strip_query keep bad st =
     fold (strip_key_step keep bad) (map fst (searchParams (fst st))) st"

text \<open>\<open>hash.replace(/^#\??/, "")\<close>.\<close>

definition strip_hash_prefix :: "string \<Rightarrow> string" where
  "strip_hash_prefix s =
     (case s of [] \<Rightarrow> [] | c # rest \<Rightarrow> if c = CHR ''#'' then strip_first CHR ''?'' rest else s)"

definition hash_key_step ::
  "string list \<Rightarrow> string list \<Rightarrow> string \<Rightarrow> (string \<times> string) list \<times> bool \<Rightarrow>
   (string \<times> string) list \<times> bool" where
  "hash_key_step keep bad key st =
     (if shouldRemove keep bad key then (filter (\<lambda>(k, v). k \<noteq> key) (fst st), True) else st)"

definition strip_hash :: "string list \<Rightarrow> string list \<Rightarrow> urlobj \<times> bool \<Rightarrow> urlobj \<times> bool" where
  "strip_hash keep bad st =
     (let urlObj = fst st in
      if hash_of urlObj \<noteq> [] \<and> str_includes (hash_of urlObj) ''=''
      then
        (let hashParams = new_URLSearchParams (strip_hash_prefix (hash_of urlObj))
         in case fold (hash_key_step keep bad) (map fst hashParams) (hashParams, False) of
              (remaining, hashChanged) \<Rightarrow>
                if hashChanged then (set_hash urlObj (qs_serialize remaining), True) else st)
      else st)"

text \<open>
  The body of \<open>stripTracking\<close> up to the assignment to \<open>urlObj.search\<close>: the final URL
  object, \<open>changed\<close> and \<open>unwrapped.from\<close>, or \<open>None\<close> where the code returns its
  \<open>Invalid URL\<close> result.
\<close>

definition clean_object ::
  "(string \<Rightarrow> url option) \<Rightarrow> tracking_constants \<Rightarrow> string \<Rightarrow> options \<Rightarrow>
   (urlobj \<times> bool \<times> string option) option" where
  "clean_object parse C input opts =
     (let keep = keep_of opts; bad = BAD_PARAMS C opts
      in case unwrapKnownRedirectors parse (trim input) of
           (raw, from) \<Rightarrow>
             (case new_URL parse raw of
                None \<Rightarrow> None
              | Some urlObj \<Rightarrow>
                  (case strip_hash keep bad (strip_query keep bad (urlObj, from \<noteq> None)) of
                     (u, wasChanged) \<Rightarrow> Some (normalize_search u, wasChanged, from))))"

definition stripTracking ::
  "(string \<Rightarrow> url option) \<Rightarrow> tracking_constants \<Rightarrow> string \<Rightarrow> options \<Rightarrow> clean_result" where
  "stripTracking parse C input opts =
     (case clean_object parse C input opts of
        None \<Rightarrow> invalid_url input
      | Some (u, wasChanged, from) \<Rightarrow>
          \<lparr>url = strip_trailing (href u), changed = wasChanged, unwrappedFrom = from,
           error = None\<rparr>)"

section \<open>A small platform for examples\<close>

text \<open>
  The examples below run the cleaners on a small instance of the platform. Its URL parser
  reads \<open>http\<close> and \<open>https\<close> URLs of the shape \<open>scheme://host[:port][/path][?query][#fragment]\<close>
  over characters that the standard's parser leaves as they are: it lower-cases the scheme
  and the host, drops a default port and gives an empty path as \<open>/\<close>. It answers \<open>None\<close>
  to everything else, which for a string without a scheme is what \<open>new URL\<close> does.
  Its regular expressions are an optional \<open>^\<close>, literal characters (a backslash before a
  punctuation character escapes it) and an optional final group \<open>(.*)\<close> or \<open>([^&]*)\<close>,
  matched without regard to case; it answers \<open>None\<close> to every other source. Its
  \<open>decodeURIComponent\<close> decodes \<open>%XX\<close> to ASCII. No theorem about all inputs uses it.
\<close>

definition is_digit :: "char \<Rightarrow> bool" where
  "is_digit c = (let n = (of_char c :: nat) in 48 \<le> n \<and> n \<le> 57)"

definition is_alpha :: "char \<Rightarrow> bool" where
  "is_alpha c = (let n = (of_char c :: nat) in (65 \<le> n \<and> n \<le> 90) \<or> (97 \<le> n \<and> n \<le> 122))"

definition plain_url_char :: "char \<Rightarrow> bool" where
  "plain_url_char c = (is_digit c \<or> is_alpha c \<or> c \<in> set ''-._~:/?#!$&()*+,;=%@'')"

definition last_label :: "string \<Rightarrow> string" where
  "last_label h = rev (takeWhile (\<lambda>c. c \<noteq> CHR ''.'') (rev h))"

definition demo_host_ok :: "string \<Rightarrow> bool" where
  "demo_host_ok h =
     (h \<noteq> [] \<and> list_all (\<lambda>c. is_digit c \<or> is_alpha c \<or> c = CHR ''-'' \<or> c = CHR ''.'') h \<and>
      last_label h \<noteq> [] \<and> list_all is_alpha (last_label h) \<and> \<not> str_includes h ''xn--'' \<and>
      \<not> str_includes h ''..'' \<and> hd h \<noteq> CHR ''.'')"

definition demo_port :: "string \<Rightarrow> string \<Rightarrow> string option" where
  "demo_port sch portpart =
     (case portpart of
        [] \<Rightarrow> Some []
      | c # digits \<Rightarrow>
          if list_all is_digit digits \<and> length digits \<le> 4 \<and> (digits = [] \<or> hd digits \<noteq> CHR ''0'')
          then (if (sch = ''http'' \<and> digits = ''80'') \<or> (sch = ''https'' \<and> digits = ''443'')
                then Some [] else Some digits)
          else None)"

definition demo_path_ok :: "string \<Rightarrow> bool" where
  "demo_path_ok p = (\<not> str_includes p ''/.'' \<and> \<not> str_includes (toLowerCase p) ''/%2e'')"

definition demo_parse :: "string \<Rightarrow> url option" where
  "demo_parse s =
     (let sch = toLowerCase (takeWhile (\<lambda>c. c \<noteq> CHR '':'') s);
          rest = drop (length sch) s
      in if (sch = ''http'' \<or> sch = ''https'') \<and> prefix ''://'' rest \<and> list_all plain_url_char s
         then
           (let r = drop 3 rest;
                authority = takeWhile (\<lambda>c. c \<notin> set ''/?#'') r;
                tail = drop (length authority) r;
                host = takeWhile (\<lambda>c. c \<noteq> CHR '':'') authority;
                pathpart = takeWhile (\<lambda>c. c \<notin> set ''?#'') tail;
                after = drop (length pathpart) tail;
                hashpart = dropWhile (\<lambda>c. c \<noteq> CHR ''#'') after
            in case demo_port sch (drop (length host) authority) of
                 None \<Rightarrow> None
               | Some prt \<Rightarrow>
                   if demo_host_ok host \<and> demo_path_ok pathpart
                   then Some \<lparr>scheme = sch, hostname = toLowerCase host, port = prt,
                          pathname = (if pathpart = [] then ''/'' else pathpart),
                          query = (if prefix ''?'' after
                                   then Some (takeWhile (\<lambda>c. c \<noteq> CHR ''#'') (tl after))
                                   else None),
                          fragment = (if hashpart = [] then None else Some (tl hashpart))\<rparr>
                   else None)
         else None)"

datatype demo_group = NoGroup | RestOfLine | UpToAmp

record demo_re =
  anchored :: bool
  lit :: string
  grp :: demo_group

fun demo_literal :: "string \<Rightarrow> (string \<times> string) option" where
  "demo_literal [] = Some ([], [])"
| "demo_literal (c # cs) =
     (if c = CHR 0x5C then
        (case cs of
           [] \<Rightarrow> None
         | d # ds \<Rightarrow>
             if is_meta d \<or> d \<in> set ''/-=&:#%''
             then map_option (\<lambda>(l, t). (d # l, t)) (demo_literal ds)
             else None)
      else if c = CHR ''('' then Some ([], c # cs)
      else if is_meta c then None
      else map_option (\<lambda>(l, t). (c # l, t)) (demo_literal cs))"

definition demo_compile :: "string \<Rightarrow> string \<Rightarrow> demo_re option" where
  "demo_compile source flags =
     (if flags = ''i'' \<or> flags = ''ig'' then
        (let anch = prefix ''^'' source; body = (if anch then tl source else source)
         in case demo_literal body of
              None \<Rightarrow> None
            | Some (l, t) \<Rightarrow>
                if t = [] then Some \<lparr>anchored = anch, lit = toLowerCase l, grp = NoGroup\<rparr>
                else if t = ''(.*)'' then
                  Some \<lparr>anchored = anch, lit = toLowerCase l, grp = RestOfLine\<rparr>
                else if t = ''([^&]*)'' then
                  Some \<lparr>anchored = anch, lit = toLowerCase l, grp = UpToAmp\<rparr>
                else None)
      else None)"

text \<open>The lower-case literal \<open>p\<close> at the head of \<open>s\<close>, without regard to case.\<close>

fun ci_prefix :: "string \<Rightarrow> string \<Rightarrow> bool" where
  "ci_prefix [] s = True"
| "ci_prefix (p # ps) [] = False"
| "ci_prefix (p # ps) (c # cs) = (if p = lower_char c then ci_prefix ps cs else False)"

text \<open>A match starting at the head of \<open>s\<close>: its length and its group 1.\<close>

definition demo_match_here :: "demo_re \<Rightarrow> string \<Rightarrow> (nat \<times> string option) option" where
  "demo_match_here re s =
     (if ci_prefix (lit re) s then
        (let rest = drop (length (lit re)) s
         in case grp re of
              NoGroup \<Rightarrow> Some (length (lit re), None)
            | RestOfLine \<Rightarrow>
                (let cap = takeWhile (\<lambda>c. c \<noteq> CHR 0x0A \<and> c \<noteq> CHR 0x0D) rest
                 in Some (length (lit re) + length cap, Some cap))
            | UpToAmp \<Rightarrow>
                (let cap = takeWhile (\<lambda>c. c \<noteq> CHR ''&'') rest
                 in Some (length (lit re) + length cap, Some cap)))
      else None)"

text \<open>The leftmost match; \<open>at0\<close> says whether \<open>s\<close> starts at position 0.\<close>

fun demo_find :: "demo_re \<Rightarrow> bool \<Rightarrow> string \<Rightarrow> (nat \<times> string option) option" where
  "demo_find re at0 [] = (if anchored re \<and> \<not> at0 then None else demo_match_here re [])"
| "demo_find re at0 (c # cs) =
     (case (if anchored re \<and> \<not> at0 then None else demo_match_here re (c # cs)) of
        Some m \<Rightarrow> Some m
      | None \<Rightarrow> demo_find re False cs)"

definition demo_test :: "demo_re \<Rightarrow> string \<Rightarrow> bool" where
  "demo_test re s = (demo_find re True s \<noteq> None)"

definition demo_group1 :: "demo_re \<Rightarrow> string \<Rightarrow> string option" where
  "demo_group1 re s = (case demo_find re True s of None \<Rightarrow> None | Some (n, g) \<Rightarrow> g)"

text \<open>
  Global replacement by the empty string: \<open>skip\<close> counts the characters of the current
  match still to drop; after an empty match the scan moves on by one character.
\<close>

fun demo_remove :: "demo_re \<Rightarrow> nat \<Rightarrow> bool \<Rightarrow> string \<Rightarrow> string" where
  "demo_remove re skip at0 [] = []"
| "demo_remove re (Suc k) at0 (c # cs) = demo_remove re k False cs"
| "demo_remove re 0 at0 (c # cs) =
     (case (if anchored re \<and> \<not> at0 then None else demo_match_here re (c # cs)) of
        None \<Rightarrow> c # demo_remove re 0 False cs
      | Some (n, g) \<Rightarrow>
          if n = 0 then c # demo_remove re 0 False cs else demo_remove re (n - 1) False cs)"

fun demo_decode :: "string \<Rightarrow> string option" where
  "demo_decode [] = Some []"
| "demo_decode (c # cs) =
     (if c = CHR ''%'' then
        (case cs of
           h # l # rest \<Rightarrow>
             (case (hex_val h, hex_val l) of
                (Some a, Some b) \<Rightarrow>
                  if 16 * a + b < 128
                  then map_option (\<lambda>r. char_of (16 * a + b) # r) (demo_decode rest)
                  else None
              | _ \<Rightarrow> None)
         | _ \<Rightarrow> None)
      else map_option (\<lambda>r. c # r) (demo_decode cs))"

definition demo :: "demo_re platform" where
  "demo =
     \<lparr>url_parse = demo_parse, rx_compile = demo_compile, rx_test = demo_test,
      rx_group1 = demo_group1, rx_remove_all = (\<lambda>re s. demo_remove re 0 True s),
      decodeURIComponent = demo_decode\<rparr>"

section \<open>Definitions for the stated properties\<close>

text \<open>
  The classification of rule entries and the removal condition as the specification words
  them: an entry with no regex metacharacter, no \<open>=\<close> and no \<open>\b\<close> is a literal name,
  compared case-folded; every other entry is compiled as a case-insensitive regex; a key
  goes when its case-folded name is a literal name or a regex matches the case-folded key
  or that key with \<open>=\<close> appended.
\<close>

definition literal_entry :: "string \<Rightarrow> bool" where
  "literal_entry s =
     (\<not> list_ex is_meta s \<and> CHR ''='' \<notin> set s \<and> \<not> str_includes s [CHR 0x5C, CHR ''b''])"

definition literal_names :: "string list \<Rightarrow> string list" where
  "literal_names entries = map toLowerCase (filter literal_entry entries)"

definition compiled_regexes :: "'re platform \<Rightarrow> string list \<Rightarrow> 're list" where
  "compiled_regexes P entries =
     List.map_filter (\<lambda>e. rx_compile P e ''i'') (filter (\<lambda>e. \<not> literal_entry e) entries)"

definition removal_rule :: "'re platform \<Rightarrow> string list \<Rightarrow> string \<Rightarrow> bool" where
  "removal_rule P entries key =
     (toLowerCase key \<in> set (literal_names entries) \<or>
      list_ex (\<lambda>re. rx_test P re (toLowerCase key) \<or> rx_test P re (toLowerCase key @ ''=''))
        (compiled_regexes P entries))"

text \<open>A provider's entries and a parsed URL for the examples of the removal pass.\<close>

definition ex_entries :: "string list" where
  "ex_entries = [''utm_source'', ''^fb'', ''gclid='']"

definition ex_tracked :: urlobj where
  "ex_tracked =
     \<lparr>scheme = ''https'', hostname = ''example.com'', port = [], pathname = ''/'',
      query = Some ''utm_source=a&fbclid=b&GCLID=c&keep=d'', fragment = None,
      searchParams =
        [(''utm_source'', ''a''), (''fbclid'', ''b''), (''GCLID'', ''c''), (''keep'', ''d'')]\<rparr>"

text \<open>The URL object of \<open>https://a.com/\<close>.\<close>

definition ex_plain :: urlobj where
  "ex_plain =
     \<lparr>scheme = ''https'', hostname = ''a.com'', port = [], pathname = ''/'',
      query = None, fragment = None, searchParams = []\<rparr>"

text \<open>
  The redirection pass as the specification words it: the provider guard and every
  redirection regex are tested against the current working URL's string.
\<close>

definition redirect_provider_chained ::
  "'re platform \<Rightarrow> provider \<Rightarrow> urlobj \<times> bool \<Rightarrow> urlobj \<times> bool" where
  "redirect_provider_chained P p st =
     (if provider_applies P p (href (fst st))
      then fold (\<lambda>redir s. redirection_step P (href (fst s)) redir s) (asList (redirections p)) st
      else st)"

definition redirection_pass_chained ::
  "'re platform \<Rightarrow> provider list \<Rightarrow> urlobj \<Rightarrow> urlobj \<times> bool" where
  "redirection_pass_chained P providers workingUrl =
     fold (redirect_provider_chained P) providers (workingUrl, False)"

text \<open>
  The redirection pass as the code has it: the target a redirection regex yields on the
  string \<open>urlStr\<close>, and the targets of all redirections of all providers that apply to
  \<open>urlStr\<close>, in order.
\<close>

definition redirect_target :: "'re platform \<Rightarrow> string \<Rightarrow> string \<Rightarrow> urlobj option" where
  "redirect_target P urlStr redir =
     (case rx_compile P redir ''i'' of
        None \<Rightarrow> None
      | Some re \<Rightarrow>
          (case rx_group1 P re urlStr of
             None \<Rightarrow> None
           | Some target \<Rightarrow>
               if target = [] then None
               else new_URL (url_parse P)
                      (case decodeURIComponent P target of None \<Rightarrow> target | Some d \<Rightarrow> d)))"

definition provider_targets :: "'re platform \<Rightarrow> string \<Rightarrow> provider \<Rightarrow> urlobj list" where
  "provider_targets P urlStr p =
     (if provider_applies P p urlStr
      then List.map_filter (redirect_target P urlStr) (asList (redirections p))
      else [])"

definition redirect_targets :: "'re platform \<Rightarrow> string \<Rightarrow> provider list \<Rightarrow> urlobj list" where
  "redirect_targets P urlStr providers = concat (map (provider_targets P urlStr) providers)"

text \<open>
  A link wrapped twice: \<open>first.example\<close> redirects through \<open>to\<close> to a
  \<open>second.example\<close> link, which redirects through \<open>next\<close> to \<open>third.example\<close>; one
  provider with both redirections, and two providers with one each.
\<close>

definition ex_wrapped_twice :: string where
  "ex_wrapped_twice =
     ''https://first.example/?to=https%3A%2F%2Fsecond.example%2F%3Fnext%3Dhttps%253A%252F%252Fthird.example%252F''"

definition ex_both_hops :: provider where
  "ex_both_hops =
     \<lparr>urlPattern = ''^https://'', exceptions = None,
      redirections = Some [''to=(.*)'', ''next=(.*)''], rules = None,
      referralMarketing = None, rawRules = None\<rparr>"

definition ex_first_hop :: provider where
  "ex_first_hop =
     \<lparr>urlPattern = ''^https://first'', exceptions = None, redirections = Some [''to=(.*)''],
      rules = None, referralMarketing = None, rawRules = None\<rparr>"

definition ex_second_hop :: provider where
  "ex_second_hop =
     \<lparr>urlPattern = ''^https://second'', exceptions = None, redirections = Some [''next=(.*)''],
      rules = None, referralMarketing = None, rawRules = None\<rparr>"

definition ex_wrapped_obj :: urlobj where
  "ex_wrapped_obj =
     \<lparr>scheme = ''https'', hostname = ''first.example'', port = [], pathname = ''/'',
      query = Some ''to=https%3A%2F%2Fsecond.example%2F%3Fnext%3Dhttps%253A%252F%252Fthird.example%252F'',
      fragment = None,
      searchParams = [(''to'', ''https://second.example/?next=https%3A%2F%2Fthird.example%2F'')]\<rparr>"

text \<open>
  The conditions of the three redirector rules, by name: the host condition of each rule,
  and the whole condition under which the rule returns.
\<close>

definition google_host :: "urlobj \<Rightarrow> bool" where
  "google_host u = (endsWith (hostname u) ''google.com'' \<or> endsWith (hostname u) ''google.com.au'')"

definition facebook_host :: "urlobj \<Rightarrow> bool" where
  "facebook_host u = (hostname u = ''l.facebook.com'')"

definition instagram_host :: "urlobj \<Rightarrow> bool" where
  "instagram_host u = endsWith (hostname u) ''instagram.com''"

definition google_target :: "urlobj \<Rightarrow> string option" where
  "google_target u = js_or (sp_get u ''url'') (sp_get u ''q'')"

definition google_match :: "urlobj \<Rightarrow> bool" where
  "google_match u = (google_host u \<and> pathname u = ''/url'' \<and> truthy (google_target u))"

definition facebook_match :: "urlobj \<Rightarrow> bool" where
  "facebook_match u = ((facebook_host u \<or> pathname u = ''/l.php'') \<and> truthy (sp_get u ''u''))"

definition instagram_match :: "urlobj \<Rightarrow> bool" where
  "instagram_match u = (instagram_host u \<and> truthy (sp_get u ''u''))"

text \<open>Three links for the examples of the redirector rules.\<close>

definition ex_php_link :: string where
  "ex_php_link = ''https://example.com/l.php?u=https://t.example/''"

definition ex_php_obj :: urlobj where
  "ex_php_obj =
     \<lparr>scheme = ''https'', hostname = ''example.com'', port = [], pathname = ''/l.php'',
      query = Some ''u=https://t.example/'', fragment = None,
      searchParams = [(''u'', ''https://t.example/'')]\<rparr>"

definition ex_google_link :: string where
  "ex_google_link = ''https://www.google.com/url?q=https://example.com/''"

definition ex_bad_target_link :: string where
  "ex_bad_target_link = ''https://www.google.com/url?q=notaurl''"

definition ex_bad_target_utm_link :: string where
  "ex_bad_target_utm_link = ''https://www.google.com/url?q=notaurl&utm_source=x''"

definition ex_constants :: tracking_constants where
  "ex_constants = \<lparr>BAD_PARAMS_LIST = [''gclid'', ''fbclid''], REFERRAL_PARAMS_LIST = [''ref'']\<rparr>"

text \<open>
  A provider that applies to every \<open>https\<close> URL, with the entries above as its rules; and
  options that keep \<open>utm_source\<close>, \<open>id\<close> and \<open>utm_keep\<close>.
\<close>

definition ex_tracker :: provider where
  "ex_tracker =
     \<lparr>urlPattern = ''^https://'', exceptions = None, redirections = None,
      rules = Some ex_entries, referralMarketing = None, rawRules = None\<rparr>"

definition ex_keep_options :: options where
  "ex_keep_options = default_options\<lparr>keepParams := [''utm_source'', ''id'', ''UTM_Keep'']\<rparr>"

definition ex_no_constants :: tracking_constants where
  "ex_no_constants = \<lparr>BAD_PARAMS_LIST = [], REFERRAL_PARAMS_LIST = []\<rparr>"

definition ex_utm_link :: string where
  "ex_utm_link = ''https://example.com/?utm_source=a&UTM_Custom=b&utm_keep=c&x=1''"

definition ex_utm_cleaned :: urlobj where
  "ex_utm_cleaned =
     \<lparr>scheme = ''https'', hostname = ''example.com'', port = [], pathname = ''/'',
      query = Some ''utm_source=a&utm_keep=c&x=1'', fragment = None,
      searchParams = [(''utm_source'', ''a''), (''utm_keep'', ''c''), (''x'', ''1'')]\<rparr>"

text \<open>Two links for the examples of the keep list.\<close>

definition ex_kept_link :: string where
  "ex_kept_link = ''https://example.com/?utm_source=a&keep=d''"

definition ex_wrapped_kept_link :: string where
  "ex_wrapped_kept_link = ''https://www.google.com/url?q=https://example.com/&id=7''"

definition ex_kept_obj :: urlobj where
  "ex_kept_obj =
     \<lparr>scheme = ''https'', hostname = ''example.com'', port = [], pathname = ''/'',
      query = Some ''utm_source=a&keep=d'', fragment = None,
      searchParams = [(''utm_source'', ''a''), (''keep'', ''d'')]\<rparr>"

text \<open>
  What it means that a cleaned URL is already clean: for the heuristic cleaner, that no
  redirector rule matches it; for the rule engine, that no rule of a provider that
  applies to it does anything: no redirection yields a target, no key is selected for
  removal and no raw rule changes its text into another URL.
\<close>

definition redirector_match :: "urlobj \<Rightarrow> bool" where
  "redirector_match u = (google_match u \<or> facebook_match u \<or> instagram_match u)"

definition raw_rule_quiet :: "'re platform \<Rightarrow> string \<Rightarrow> string \<Rightarrow> bool" where
  "raw_rule_quiet P s raw =
     (case rx_compile P raw ''ig'' of
        None \<Rightarrow> True
      | Some re \<Rightarrow>
          rx_remove_all P re s = s \<or> new_URL (url_parse P) (rx_remove_all P re s) = None)"

definition provider_quiet :: "'re platform \<Rightarrow> bool \<Rightarrow> urlobj \<Rightarrow> provider \<Rightarrow> bool" where
  "provider_quiet P allowRef u p =
     (if provider_applies P p (href u)
      then provider_targets P (href u) p = [] \<and>
           \<not> list_ex (removal_rule P (rawEntries_of allowRef p)) (map fst (searchParams u)) \<and>
           list_all (raw_rule_quiet P (href u)) (asList (rawRules p))
      else True)"

definition ruleset_quiet :: "'re platform \<Rightarrow> bool \<Rightarrow> provider list \<Rightarrow> urlobj \<Rightarrow> bool" where
  "ruleset_quiet P allowRef providers u = list_all (provider_quiet P allowRef u) providers"

text \<open>The parameters the code reads from a hash, and whether it would remove any.\<close>

definition hash_params :: "string \<Rightarrow> (string \<times> string) list" where
  "hash_params h = new_URLSearchParams (strip_hash_prefix h)"

definition hash_dirty :: "string list \<Rightarrow> string list \<Rightarrow> string \<Rightarrow> bool" where
  "hash_dirty keep bad h =
     (h \<noteq> [] \<and> str_includes h ''='' \<and> list_ex (shouldRemove keep bad) (map fst (hash_params h)))"

text \<open>
  A redirector link inside a redirector link, its form after one run of the heuristic
  cleaner, and the twice-wrapped link above after one run of the rule engine.
\<close>

definition ex_nested_link :: string where
  "ex_nested_link =
     ''https://www.google.com/url?q=https%3A%2F%2Fl.facebook.com%2Fl.php%3Fu%3Dhttps%253A%252F%252Fexample.com%252F''"

definition ex_nested_once :: string where
  "ex_nested_once = ''https://l.facebook.com/l.php?u=https%3A%2F%2Fexample.com%2F''"

definition ex_wrapped_once :: string where
  "ex_wrapped_once = ''https://second.example/?next=https%3A%2F%2Fthird.example%2F''"

definition ex_kept_cleaned :: urlobj where
  "ex_kept_cleaned =
     \<lparr>scheme = ''https'', hostname = ''example.com'', port = [], pathname = ''/'',
      query = Some ''keep=d'', fragment = None, searchParams = [(''keep'', ''d'')]\<rparr>"

section \<open>Properties of the query-string codec\<close>

text \<open>Parsing what the serializer wrote gives the list back.\<close>

lemma of_char_hex_digit:
  "n < 16 \<Longrightarrow> (of_char (hex_digit n) :: nat) = (if n < 10 then 48 + n else 55 + n)"
  by (simp add: hex_digit_def of_char_of)

lemma hex_val_hex_digit: "n < 16 \<Longrightarrow> hex_val (hex_digit n) = Some n"
  by (simp add: hex_val_def Let_def of_char_hex_digit)

lemma hex_digit_not_special:
  assumes n: "n < 16"
  shows "hex_digit n \<noteq> CHR ''+''" and "hex_digit n \<noteq> CHR ''&''" and "hex_digit n \<noteq> CHR ''=''"
    and "hex_digit n \<noteq> CHR ''%''"
proof -
  have a: "(of_char (hex_digit n) :: nat) \<ge> 48" "(of_char (hex_digit n) :: nat) \<noteq> 61"
    using of_char_hex_digit [OF n] n by auto
  show "hex_digit n \<noteq> CHR ''+''"
  proof
    assume "hex_digit n = CHR ''+''"
    then have "(of_char (hex_digit n) :: nat) = 43" by simp
    with a show False by simp
  qed
  show "hex_digit n \<noteq> CHR ''&''"
  proof
    assume "hex_digit n = CHR ''&''"
    then have "(of_char (hex_digit n) :: nat) = 38" by simp
    with a show False by simp
  qed
  show "hex_digit n \<noteq> CHR ''=''"
  proof
    assume "hex_digit n = CHR ''=''"
    then have "(of_char (hex_digit n) :: nat) = 61" by simp
    with a show False by simp
  qed
  show "hex_digit n \<noteq> CHR ''%''"
  proof
    assume "hex_digit n = CHR ''%''"
    then have "(of_char (hex_digit n) :: nat) = 37" by simp
    with a show False by simp
  qed
qed

lemma url_safe_not_special:
  assumes "url_safe c"
  shows "c \<noteq> CHR ''+''" and "c \<noteq> CHR ''&''" and "c \<noteq> CHR ''=''" and "c \<noteq> CHR ''%''"
  using assms by (auto simp: url_safe_def)

lemma percent_decode_Cons: "c \<noteq> CHR ''%'' \<Longrightarrow> percent_decode (c # r) = c # percent_decode r"
  by (cases "(c # r)" rule: percent_decode.cases) auto

lemma percent_decode_hex:
  "hex_val h = Some a \<Longrightarrow> hex_val l = Some b \<Longrightarrow>
   percent_decode (CHR ''%'' # h # l # r) = char_of (16 * a + b) # percent_decode r"
  by simp

lemma char_of_div_mod: "char_of (16 * ((of_char c :: nat) div 16) + of_char c mod 16) = c"
  by simp

lemma of_char_div_16: "(of_char c :: nat) div 16 < 16"
proof -
  have "(of_char c :: nat) < 16 * 16" by simp
  then show ?thesis by (simp only: div_less_iff_less_mult zero_less_numeral)
qed

lemma decode_encode_byte:
  "percent_decode (plus_to_space (encode_byte c @ r)) = c # percent_decode (plus_to_space r)"
proof (cases "c = CHR '' ''")
  case True
  then show ?thesis by (simp add: encode_byte_def plus_to_space_def percent_decode_Cons)
next
  case False
  show ?thesis
  proof (cases "url_safe c")
    case True
    with False url_safe_not_special [OF True] show ?thesis
      by (simp add: encode_byte_def plus_to_space_def percent_decode_Cons)
  next
    case u: False
    let ?h = "hex_digit (of_char c div 16)" and ?l = "hex_digit (of_char c mod 16)"
    have h: "hex_val ?h = Some (of_char c div 16)" by (rule hex_val_hex_digit [OF of_char_div_16])
    have l: "hex_val ?l = Some (of_char c mod 16)" by (rule hex_val_hex_digit) simp
    have p: "?h \<noteq> CHR ''+''" "?l \<noteq> CHR ''+''"
      using hex_digit_not_special(1) [OF of_char_div_16] hex_digit_not_special(1) [of "of_char c mod 16"]
      by simp_all
    have "plus_to_space (encode_byte c @ r) = CHR ''%'' # ?h # ?l # plus_to_space r"
      using False u p by (simp add: encode_byte_def plus_to_space_def)
    then show ?thesis using percent_decode_hex [OF h l] char_of_div_mod by simp
  qed
qed

lemma decode_byte_serialize: "percent_decode (plus_to_space (byte_serialize s)) = s"
proof (induction s)
  case Nil
  then show ?case by (simp add: byte_serialize_def plus_to_space_def)
next
  case (Cons c s)
  have "byte_serialize (c # s) = encode_byte c @ byte_serialize s" by (simp add: byte_serialize_def)
  then show ?case using decode_encode_byte Cons by simp
qed

lemma encode_byte_no_sep: "CHR ''&'' \<notin> set (encode_byte c) \<and> CHR ''='' \<notin> set (encode_byte c)"
proof (cases "c = CHR '' ''")
  case True
  then show ?thesis by (simp add: encode_byte_def)
next
  case False
  show ?thesis
  proof (cases "url_safe c")
    case True
    with False url_safe_not_special [OF True] show ?thesis by (auto simp: encode_byte_def)
  next
    case u: False
    have "of_char c mod 16 < (16::nat)" by simp
    from hex_digit_not_special(2,3) [OF of_char_div_16, of c] hex_digit_not_special(2,3) [OF this]
    show ?thesis using False u by (auto simp: encode_byte_def)
  qed
qed

lemma byte_serialize_no_sep:
  "CHR ''&'' \<notin> set (byte_serialize s)" "CHR ''='' \<notin> set (byte_serialize s)"
  using encode_byte_no_sep by (auto simp: byte_serialize_def)

lemma split_on_no_sep: "c \<notin> set x \<Longrightarrow> split_on c x = [x]"
  by (induction x) auto

lemma split_on_append: "c \<notin> set x \<Longrightarrow> split_on c (x @ c # r) = x # split_on c r"
  by (induction x) auto

lemma split_on_join_amp:
  "\<forall>x \<in> set xs. CHR ''&'' \<notin> set x \<Longrightarrow> xs \<noteq> [] \<Longrightarrow> split_on CHR ''&'' (join_amp xs) = xs"
proof (induction xs rule: join_amp.induct)
  case 1
  then show ?case by simp
next
  case (2 x)
  then show ?case by (simp add: split_on_no_sep)
next
  case (3 x y ys)
  then show ?case by (simp add: split_on_append)
qed

lemma parse_pair_text: "parse_pair (pair_text kv) = kv"
proof -
  have "takeWhile (\<lambda>c. c \<noteq> CHR ''='') (pair_text kv) = byte_serialize (fst kv)"
    unfolding pair_text_def using byte_serialize_no_sep(2) [of "fst kv"]
    by (auto simp: takeWhile_tail)
  then show ?thesis
    by (simp add: parse_pair_def Let_def decode_byte_serialize) (simp add: pair_text_def decode_byte_serialize)
qed

lemma qs_parse_serialize: "qs_parse (qs_serialize ps) = ps"
proof (cases "ps = []")
  case True
  then show ?thesis by (simp add: qs_parse_def qs_serialize_def)
next
  case False
  have eq: "qs_serialize ps = join_amp (map pair_text ps)"
    by (simp add: qs_serialize_def)
  have nosep: "\<forall>x \<in> set (map pair_text ps). CHR ''&'' \<notin> set x"
    using byte_serialize_no_sep(1) by (auto simp: pair_text_def)
  have ne: "\<forall>x \<in> set (map pair_text ps). x \<noteq> []" by (auto simp: pair_text_def)
  have "split_on CHR ''&'' (qs_serialize ps) = map pair_text ps"
    using split_on_join_amp [OF nosep] False eq by simp
  moreover have "filter (\<lambda>piece. piece \<noteq> []) (map pair_text ps) = map pair_text ps"
    using ne by (simp add: filter_id_conv)
  ultimately show ?thesis by (simp add: qs_parse_def parse_pair_text comp_def)
qed

lemma qs_serialize_empty_iff: "qs_serialize ps = [] \<longleftrightarrow> ps = []"
proof
  assume "qs_serialize ps = []"
  then have "qs_parse (qs_serialize ps) = qs_parse []" by simp
  then have "ps = qs_parse []" by (simp only: qs_parse_serialize)
  then show "ps = []" by (simp add: qs_parse_def)
next
  assume "ps = []" then show "qs_serialize ps = []" by (simp add: qs_serialize_def)
qed

section \<open>Rule entries: literal names and regexes\<close>

lemma str_includes_single: "str_includes s [c] \<longleftrightarrow> c \<in> set s"
  by (induction s) auto

lemma is_plain_name_literal: "is_plain_name s \<longleftrightarrow> literal_entry s"
proof -
  have "CHR ''['' \<in> set s \<Longrightarrow> list_ex is_meta s"
    by (auto simp: list_ex_iff is_meta_def)
  then show ?thesis
    by (auto simp: is_plain_name_def literal_entry_def str_includes_single)
qed

lemma classify_fold:
  "fold (classify_entry P) entries (ns, rs) =
     (ns @ literal_names entries, rs @ compiled_regexes P entries)"
proof (induction entries arbitrary: ns rs)
  case Nil
  then show ?case by (simp add: literal_names_def compiled_regexes_def map_filter_simps)
next
  case (Cons e es)
  show ?case
  proof (cases "literal_entry e")
    case True
    then show ?thesis
      using Cons [of "ns @ [toLowerCase e]" rs]
      by (simp add: classify_entry_def is_plain_name_literal literal_names_def compiled_regexes_def)
  next
    case False
    then show ?thesis
      using Cons [of ns rs] Cons [of ns "rs @ [the (rx_compile P e ''i'')]"]
      by (auto simp: classify_entry_def is_plain_name_literal literal_names_def
          compiled_regexes_def map_filter_simps split: option.split)
  qed
qed

lemma classify_eq: "classify P entries = (literal_names entries, compiled_regexes P entries)"
  using classify_fold [of P entries "[]" "[]"] by (simp add: classify_def)

lemma key_remove_rule:
  "key_remove P (literal_names entries) (compiled_regexes P entries) key = removal_rule P entries key"
  by (simp add: key_remove_def removal_rule_def Let_def)

section \<open>The deletion loop shared by both cleaners\<close>

text \<open>
  Deleting, over a snapshot of the keys, every key that a predicate selects leaves the
  pairs whose keys the predicate does not select, in their order; the query is rewritten
  only when a key was deleted.
\<close>

lemma fold_delete:
  "fold (\<lambda>key st. if R key then (sp_delete (fst st) key, True) else st) ks (u, ch) =
     (if list_ex R ks
      then u\<lparr>query := non_empty (qs_serialize (filter (\<lambda>(k, v). \<not> (R k \<and> k \<in> set ks)) (searchParams u))),
             searchParams := filter (\<lambda>(k, v). \<not> (R k \<and> k \<in> set ks)) (searchParams u)\<rparr>
      else u,
      ch \<or> list_ex R ks)"
proof (induction ks arbitrary: u ch)
  case Nil
  then show ?case by simp
next
  case (Cons a ks)
  show ?case
  proof (cases "R a")
    case False
    then have "filter (\<lambda>(k, v). \<not> (R k \<and> k \<in> set (a # ks))) (searchParams u) =
               filter (\<lambda>(k, v). \<not> (R k \<and> k \<in> set ks)) (searchParams u)"
      by (intro filter_cong) auto
    with False Cons [of u ch] show ?thesis by simp
  next
    case True
    let ?u1 = "sp_delete u a"
    have f: "filter (\<lambda>(k, v). \<not> (R k \<and> k \<in> set ks)) (searchParams ?u1) =
             filter (\<lambda>(k, v). \<not> (R k \<and> k \<in> set (a # ks))) (searchParams u)"
      using True by (auto simp: sp_delete_def Let_def intro!: filter_cong)
    have g: "list_ex R ks \<Longrightarrow> ?thesis"
      using True Cons [of ?u1 True] f by (simp add: sp_delete_def Let_def)
    have "\<not> list_ex R ks \<Longrightarrow> filter (\<lambda>(k, v). \<not> (R k \<and> k \<in> set (a # ks))) (searchParams u)
        = filter (\<lambda>(k, v). k \<noteq> a) (searchParams u)"
      using True by (intro filter_cong) (auto simp: list_ex_iff)
    then have h: "\<not> list_ex R ks \<Longrightarrow> ?thesis"
      using True Cons [of ?u1 True] by (simp add: sp_delete_def Let_def)
    from g h show ?thesis by blast
  qed
qed

lemma fold_delete_all_keys:
  "fold (\<lambda>key st. if R key then (sp_delete (fst st) key, True) else st)
     (map fst (searchParams u)) (u, ch) =
     (if list_ex R (map fst (searchParams u))
      then u\<lparr>query := non_empty (qs_serialize (filter (\<lambda>(k, v). \<not> R k) (searchParams u))),
             searchParams := filter (\<lambda>(k, v). \<not> R k) (searchParams u)\<rparr>
      else u,
      ch \<or> list_ex R (map fst (searchParams u)))"
proof -
  have "filter (\<lambda>(k, v). \<not> (R k \<and> k \<in> set (map fst (searchParams u)))) (searchParams u) =
        filter (\<lambda>(k, v). \<not> R k) (searchParams u)"
    by (intro filter_cong) force+
  then show ?thesis using fold_delete [of R "map fst (searchParams u)" u ch] by simp
qed

lemma remove_params_eq:
  "remove_params P entries (w, ch) =
     (if list_ex (removal_rule P entries) (map fst (searchParams w))
      then w\<lparr>query := non_empty (qs_serialize
                 (filter (\<lambda>(k, v). \<not> removal_rule P entries k) (searchParams w))),
             searchParams := filter (\<lambda>(k, v). \<not> removal_rule P entries k) (searchParams w)\<rparr>
      else w,
      ch \<or> list_ex (removal_rule P entries) (map fst (searchParams w)))"
proof -
  have "remove_key_step P (literal_names entries) (compiled_regexes P entries) =
        (\<lambda>key st. if removal_rule P entries key then (sp_delete (fst st) key, True) else st)"
    by (intro ext) (simp add: remove_key_step_def key_remove_rule)
  then show ?thesis
    using fold_delete_all_keys [of "removal_rule P entries" w ch]
    by (simp add: remove_params_def classify_eq)
qed

text \<open>
  C4: in the parameter loop of a provider, the code's test for a plain name is the
  specification's (no regex metacharacter, no \<open>=\<close>, no \<open>\b\<close>); the plain names are
  collected case-folded and every other entry is compiled as a case-insensitive regex (one
  that does not compile is skipped); and a query pair is removed if and only if its
  case-folded key is one of the names or a compiled regex matches the case-folded key or
  that key followed by \<open>=\<close>. \<open>wasChanged\<close> is set exactly when some key is removed.
\<close>

theorem remove_params_literal_or_regex:
  "(is_plain_name s \<longleftrightarrow> literal_entry s) \<and>
   classify P entries = (literal_names entries, compiled_regexes P entries) \<and>
   searchParams (fst (remove_params P entries (w, ch))) =
     filter (\<lambda>(k, v). \<not> removal_rule P entries k) (searchParams w) \<and>
   snd (remove_params P entries (w, ch)) =
     (ch \<or> list_ex (removal_rule P entries) (map fst (searchParams w)))"
proof -
  have "\<not> list_ex (removal_rule P entries) (map fst (searchParams w)) \<Longrightarrow>
        filter (\<lambda>(k, v). \<not> removal_rule P entries k) (searchParams w) = searchParams w"
    by (auto simp: list_ex_iff filter_id_conv)
  then show ?thesis
    by (auto simp: is_plain_name_literal classify_eq remove_params_eq)
qed

lemma ex_tracked_parsed:
  "new_URL demo_parse ''https://example.com/?utm_source=a&fbclid=b&GCLID=c&keep=d'' =
     Some ex_tracked"
  by code_simp

theorem remove_params_literal_or_regex_witness:
  "searchParams (fst (remove_params demo ex_entries (ex_tracked, False))) = [(''keep'', ''d'')] \<and>
   snd (remove_params demo ex_entries (ex_tracked, False)) \<and>
   classify demo ex_entries =
     ([''utm_source''],
      [\<lparr>anchored = True, lit = ''fb'', grp = NoGroup\<rparr>,
       \<lparr>anchored = False, lit = ''gclid='', grp = NoGroup\<rparr>])"
proof -
  have a: "filter (\<lambda>(k, v). \<not> removal_rule demo ex_entries k) (searchParams ex_tracked) =
           [(''keep'', ''d'')]"
    by code_simp
  have b: "list_ex (removal_rule demo ex_entries) (map fst (searchParams ex_tracked))"
    by code_simp
  have c: "(literal_names ex_entries, compiled_regexes demo ex_entries) =
     ([''utm_source''],
      [\<lparr>anchored = True, lit = ''fb'', grp = NoGroup\<rparr>,
       \<lparr>anchored = False, lit = ''gclid='', grp = NoGroup\<rparr>])"
    by code_simp
  from remove_params_literal_or_regex [of "[]" demo ex_entries ex_tracked False] a b c
  show ?thesis by simp
qed

section \<open>Raw rules\<close>

text \<open>
  C5: a raw rule whose substitution changes the serialized URL is re-parsed; when the new
  text is not a URL the state (working URL and \<open>wasChanged\<close>) stays as it was, and when it
  is a URL that URL becomes the working URL and \<open>wasChanged\<close> is set.
\<close>

theorem rawRule_step_reparse:
  assumes "rx_compile P raw ''ig'' = Some re"
    and "rx_remove_all P re (href (fst st)) \<noteq> href (fst st)"
  shows "(case new_URL (url_parse P) (rx_remove_all P re (href (fst st))) of
            None \<Rightarrow> rawRule_step P raw st = st
          | Some w \<Rightarrow> rawRule_step P raw st = (w, True))"
  using assms by (simp add: rawRule_step_def Let_def split: option.split)

theorem rawRule_step_reparse_witness:
  "rx_compile demo ''^https://'' ''ig'' = Some \<lparr>anchored = True, lit = ''https://'', grp = NoGroup\<rparr> \<and>
   href ex_plain = ''https://a.com/'' \<and>
   rx_remove_all demo \<lparr>anchored = True, lit = ''https://'', grp = NoGroup\<rparr> (href ex_plain) = ''a.com/'' \<and>
   new_URL (url_parse demo) ''a.com/'' = None \<and>
   rawRule_step demo ''^https://'' (ex_plain, False) = (ex_plain, False)"
proof -
  let ?re = "\<lparr>anchored = True, lit = ''https://'', grp = NoGroup\<rparr>"
  have c: "rx_compile demo ''^https://'' ''ig'' = Some ?re" by code_simp
  have h: "href ex_plain = ''https://a.com/''" by code_simp
  have r: "rx_remove_all demo ?re (href (fst (ex_plain, False))) = ''a.com/''" by code_simp
  have n: "rx_remove_all demo ?re (href (fst (ex_plain, False))) \<noteq> href (fst (ex_plain, False))"
    using r h by simp
  have p: "new_URL (url_parse demo) ''a.com/'' = None" by code_simp
  from rawRule_step_reparse [OF c n] r p c h show ?thesis by simp
qed

section \<open>A missing ruleset\<close>

text \<open>
  C7: with a \<open>null\<close> ruleset and with the empty object \<open>{}\<close> as ruleset,
  \<open>applyClearUrls\<close> returns, for every input string, the rules-unavailable error with the
  input as \<open>url\<close> and \<open>changed = false\<close>.
\<close>

theorem applyClearUrls_rules_unavailable:
  "applyClearUrls P inputUrl RNull opts =
     \<lparr>url = inputUrl, changed = False, unwrappedFrom = None, error = Some RulesNotAvailable\<rparr> \<and>
   applyClearUrls P inputUrl (RObject None) opts =
     \<lparr>url = inputUrl, changed = False, unwrappedFrom = None, error = Some RulesNotAvailable\<rparr>"
  by (simp add: applyClearUrls_def rules_unavailable_def)

section \<open>The redirection pass\<close>

lemma ex_wrapped_parsed: "new_URL demo_parse ex_wrapped_twice = Some ex_wrapped_obj"
  by code_simp

lemma redirection_step_target:
  "redirection_step P s r st = (case redirect_target P s r of None \<Rightarrow> st | Some w \<Rightarrow> (w, True))"
  by (simp add: redirection_step_def redirect_target_def Let_def split: option.split)

lemma fold_redirection_step:
  "fold (redirection_step P s) rs st =
     (if List.map_filter (redirect_target P s) rs = [] then st
      else (last (List.map_filter (redirect_target P s) rs), True))"
proof (induction rs arbitrary: st)
  case Nil
  then show ?case by (simp add: map_filter_simps)
next
  case (Cons r rs)
  show ?case
  proof (cases "redirect_target P s r")
    case None
    then show ?thesis using Cons [of st] by (simp add: redirection_step_target map_filter_simps)
  next
    case (Some w)
    then show ?thesis using Cons [of "(w, True)"]
      by (simp add: redirection_step_target map_filter_simps)
  qed
qed

lemma redirect_provider_targets:
  "redirect_provider P s p st =
     (if provider_targets P s p = [] then st else (last (provider_targets P s p), True))"
  by (simp add: redirect_provider_def provider_targets_def fold_redirection_step)

lemma fold_redirect_provider:
  "fold (redirect_provider P s) ps st =
     (if redirect_targets P s ps = [] then st else (last (redirect_targets P s ps), True))"
proof (induction ps arbitrary: st)
  case Nil
  then show ?case by (simp add: redirect_targets_def)
next
  case (Cons p ps)
  have c: "redirect_targets P s (p # ps) = provider_targets P s p @ redirect_targets P s ps"
    by (simp add: redirect_targets_def)
  show ?case
    using Cons [of "redirect_provider P s p st"]
    by (simp add: c redirect_provider_targets)
qed

text \<open>
  C1, as amended: in the redirection pass the guard of every provider and every
  redirection regex are tested against \<open>urlStr\<close>, the serialized input URL, which is
  computed once before the loop; the working URL after the pass is the last target, in
  provider and redirection order, that such a test yields and that parses as a URL, and
  \<open>wasChanged\<close> is set exactly when there is one. No test reads an updated working URL.
\<close>

theorem redirection_pass_last_target:
  "redirection_pass P providers w =
     (if redirect_targets P (href w) providers = [] then (w, False)
      else (last (redirect_targets P (href w) providers), True))"
  by (simp add: redirection_pass_def Let_def fold_redirect_provider)

theorem redirection_pass_last_target_witness:
  "href (last (redirect_targets demo (href ex_wrapped_obj) [ex_first_hop, ex_second_hop])) =
     ''https://second.example/?next=https%3A%2F%2Fthird.example%2F'' \<and>
   redirection_pass demo [ex_first_hop, ex_second_hop] ex_wrapped_obj =
     (last (redirect_targets demo (href ex_wrapped_obj) [ex_first_hop, ex_second_hop]), True)"
proof -
  have a: "redirect_targets demo (href ex_wrapped_obj) [ex_first_hop, ex_second_hop] \<noteq> []"
    by code_simp
  have b: "href (last (redirect_targets demo (href ex_wrapped_obj) [ex_first_hop, ex_second_hop])) =
     ''https://second.example/?next=https%3A%2F%2Fthird.example%2F''"
    by code_simp
  from redirection_pass_last_target [of demo "[ex_first_hop, ex_second_hop]" ex_wrapped_obj] a b
  show ?thesis by simp
qed

text \<open>
  C1 as stated fails on the twice-wrapped link: the code stops at the
  \<open>second.example\<close> link, with one provider holding both redirections and with one
  provider for each, where testing against the updated working URL reaches
  \<open>third.example\<close>.
\<close>

theorem redirection_pass_not_chained:
  "href (fst (redirection_pass demo [ex_both_hops] ex_wrapped_obj)) =
     ''https://second.example/?next=https%3A%2F%2Fthird.example%2F'' \<and>
   href (fst (redirection_pass_chained demo [ex_both_hops] ex_wrapped_obj)) =
     ''https://third.example/'' \<and>
   href (fst (redirection_pass demo [ex_first_hop, ex_second_hop] ex_wrapped_obj)) =
     ''https://second.example/?next=https%3A%2F%2Fthird.example%2F'' \<and>
   href (fst (redirection_pass_chained demo [ex_first_hop, ex_second_hop] ex_wrapped_obj)) =
     ''https://third.example/'' \<and>
   applyClearUrls demo ex_wrapped_twice (RObject (Some [ex_first_hop, ex_second_hop]))
       default_options =
     \<lparr>url = ''https://second.example/?next=https%3A%2F%2Fthird.example%2F'', changed = True,
      unwrappedFrom = None, error = None\<rparr>"
  by code_simp

section \<open>Redirector unwrapping in the heuristic cleaner\<close>

lemma ex_php_parsed: "new_URL demo_parse ex_php_link = Some ex_php_obj"
  by code_simp

text \<open>
  C8, as amended: the three rules are tried in the order Google, Facebook, Instagram and
  the first that matches wins; its target parameter's value is the new raw URL and its
  provider id is recorded. Google needs its host suffix, the path \<open>/url\<close> and a non-empty
  \<open>url\<close> or \<open>q\<close>; Instagram needs its host suffix and a non-empty \<open>u\<close>; Facebook needs
  a non-empty \<open>u\<close> and either the host \<open>l.facebook.com\<close> or the path \<open>/l.php\<close>, so it
  fires on any host whose path is \<open>/l.php\<close>. A string that does not parse, or that no
  rule matches, is returned as it is with no provider.
\<close>

theorem unwrapKnownRedirectors_first_match:
  "unwrapKnownRedirectors parse s =
     (case new_URL parse s of
        None \<Rightarrow> (s, None)
      | Some u \<Rightarrow>
          if google_match u then (of_option (google_target u), Some ''google'')
          else if facebook_match u then (of_option (sp_get u ''u''), Some ''facebook'')
          else if instagram_match u then (of_option (sp_get u ''u''), Some ''instagram'')
          else (s, None))"
  by (auto simp: unwrapKnownRedirectors_def google_rule_def facebook_rule_def instagram_rule_def
      google_match_def facebook_match_def instagram_match_def google_host_def facebook_host_def
      instagram_host_def google_target_def Let_def split: option.split)

theorem unwrapKnownRedirectors_first_match_witness:
  "unwrapKnownRedirectors demo_parse ex_google_link = (''https://example.com/'', Some ''google'')"
proof -
  have "(case new_URL demo_parse ex_google_link of
        None \<Rightarrow> (ex_google_link, None)
      | Some u \<Rightarrow>
          if google_match u then (of_option (google_target u), Some ''google'')
          else if facebook_match u then (of_option (sp_get u ''u''), Some ''facebook'')
          else if instagram_match u then (of_option (sp_get u ''u''), Some ''instagram'')
          else (ex_google_link, None)) = (''https://example.com/'', Some ''google'')"
    by code_simp
  with unwrapKnownRedirectors_first_match [of demo_parse ex_google_link] show ?thesis by simp
qed

text \<open>
  C8 as stated fails on a link to \<open>/l.php\<close> of another host: the Facebook rule
  fires although its host condition does not hold.
\<close>

theorem facebook_rule_without_host:
  "new_URL demo_parse ex_php_link = Some ex_php_obj \<and>
   \<not> facebook_host ex_php_obj \<and>
   unwrapKnownRedirectors demo_parse ex_php_link = (''https://t.example/'', Some ''facebook'')"
  by code_simp

section \<open>A redirector target that is not a URL\<close>

text \<open>
  C2: the input parses and the Google rule matches it, but the target \<open>notaurl\<close> does not
  parse: the cleaner returns its \<open>Invalid URL\<close> result for the input instead of cleaning
  the input URL.
\<close>

theorem stripTracking_bad_target_invalid:
  "demo_parse ex_bad_target_link \<noteq> None \<and>
   unwrapKnownRedirectors demo_parse ex_bad_target_link = (''notaurl'', Some ''google'') \<and>
   demo_parse ''notaurl'' = None \<and>
   stripTracking demo_parse ex_constants ex_bad_target_link default_options =
     \<lparr>url = ex_bad_target_link, changed = False, unwrappedFrom = None, error = Some InvalidURL\<rparr>"
  by code_simp

section \<open>The changed flag and canonicalization\<close>

text \<open>
  C10: on an upper-case scheme and host, on a lone trailing \<open>?\<close> and on a default port,
  both cleaners return \<open>changed = false\<close> and a \<open>url\<close> that differs from the input.
\<close>

theorem changed_false_url_differs:
  "stripTracking demo_parse ex_constants ''HTTPS://Example.COM/'' default_options =
     \<lparr>url = ''https://example.com/'', changed = False, unwrappedFrom = None, error = None\<rparr> \<and>
   stripTracking demo_parse ex_constants ''https://example.com/?'' default_options =
     \<lparr>url = ''https://example.com/'', changed = False, unwrappedFrom = None, error = None\<rparr> \<and>
   stripTracking demo_parse ex_constants ''https://example.com:443/'' default_options =
     \<lparr>url = ''https://example.com/'', changed = False, unwrappedFrom = None, error = None\<rparr> \<and>
   applyClearUrls demo ''HTTPS://Example.COM/'' (RObject (Some [ex_tracker])) default_options =
     \<lparr>url = ''https://example.com/'', changed = False, unwrappedFrom = None, error = None\<rparr> \<and>
   applyClearUrls demo ''https://example.com/?'' (RObject (Some [ex_tracker])) default_options =
     \<lparr>url = ''https://example.com/'', changed = False, unwrappedFrom = None, error = None\<rparr> \<and>
   applyClearUrls demo ''https://example.com:443/'' (RObject (Some [ex_tracker])) default_options =
     \<lparr>url = ''https://example.com/'', changed = False, unwrappedFrom = None, error = None\<rparr> \<and>
   ''HTTPS://Example.COM/'' \<noteq> ''https://example.com/'' \<and>
   ''https://example.com/?'' \<noteq> ''https://example.com/'' \<and>
   ''https://example.com:443/'' \<noteq> ''https://example.com/''"
  by code_simp

section \<open>The query of the heuristic cleaner's result\<close>

lemma strip_key_step_if:
  "strip_key_step keep bad =
     (\<lambda>key st. if shouldRemove keep bad key then (sp_delete (fst st) key, True) else st)"
  by (intro ext) (simp add: strip_key_step_def)

lemma strip_query_eq:
  "strip_query keep bad (u, ch) =
     (if list_ex (shouldRemove keep bad) (map fst (searchParams u))
      then u\<lparr>query := non_empty (qs_serialize
                 (filter (\<lambda>(k, v). \<not> shouldRemove keep bad k) (searchParams u))),
             searchParams := filter (\<lambda>(k, v). \<not> shouldRemove keep bad k) (searchParams u)\<rparr>
      else u,
      ch \<or> list_ex (shouldRemove keep bad) (map fst (searchParams u)))"
  using fold_delete_all_keys [of "shouldRemove keep bad" u ch]
  by (simp add: strip_query_def strip_key_step_if)

lemma filter_none_selected:
  "\<not> list_ex R (map fst ps) \<Longrightarrow> filter (\<lambda>(k, v). \<not> R k) ps = ps"
  by (auto simp: list_ex_iff filter_id_conv)

lemma strip_query_params:
  "searchParams (fst (strip_query keep bad (u, ch))) =
     filter (\<lambda>(k, v). \<not> shouldRemove keep bad k) (searchParams u)"
  by (simp add: strip_query_eq filter_none_selected)

lemma strip_hash_params: "searchParams (fst (strip_hash keep bad st)) = searchParams (fst st)"
  by (simp add: strip_hash_def Let_def set_hash_def split: prod.split)

lemma normalize_search_params: "searchParams (normalize_search u) = searchParams u"
  by (simp add: normalize_search_def set_search_def qs_parse_serialize)

lemma normalize_search_query:
  "query (normalize_search u) = non_empty (qs_serialize (searchParams u))"
  by (simp add: normalize_search_def set_search_def)

lemma clean_object_params:
  assumes "clean_object parse C input opts = Some (u, ch, from)"
  shows "\<exists>urlObj. new_URL parse (fst (unwrapKnownRedirectors parse (trim input))) = Some urlObj \<and>
           snd (unwrapKnownRedirectors parse (trim input)) = from \<and>
           searchParams u =
             filter (\<lambda>(k, v). \<not> shouldRemove (keep_of opts) (BAD_PARAMS C opts) k)
               (searchParams urlObj) \<and>
           query u = non_empty (qs_serialize (searchParams u))"
proof -
  obtain raw fr where uw: "unwrapKnownRedirectors parse (trim input) = (raw, fr)"
    by (cases "unwrapKnownRedirectors parse (trim input)")
  from assms uw obtain urlObj where p: "new_URL parse raw = Some urlObj"
    by (auto simp: clean_object_def Let_def split: option.splits)
  let ?st = "strip_hash (keep_of opts) (BAD_PARAMS C opts)
               (strip_query (keep_of opts) (BAD_PARAMS C opts) (urlObj, fr \<noteq> None))"
  from assms uw p have u: "u = normalize_search (fst ?st)" and f: "from = fr"
    by (auto simp: clean_object_def Let_def split: prod.splits)
  have "searchParams u =
          filter (\<lambda>(k, v). \<not> shouldRemove (keep_of opts) (BAD_PARAMS C opts) k) (searchParams urlObj)"
    by (simp add: u normalize_search_params strip_hash_params strip_query_params)
  moreover have "query u = non_empty (qs_serialize (searchParams u))"
    by (simp add: u normalize_search_query normalize_search_params)
  ultimately show ?thesis using uw p f by auto
qed

lemma ex_utm_link_cleaned:
  "clean_object demo_parse ex_no_constants ex_utm_link ex_keep_options =
     Some (ex_utm_cleaned, True, None)"
  by code_simp

lemma stripTracking_of_object:
  "clean_object parse C input opts = Some (u, ch, from) \<Longrightarrow>
   stripTracking parse C input opts =
     \<lparr>url = strip_trailing (href u), changed = ch, unwrappedFrom = from, error = None\<rparr>"
  by (simp add: stripTracking_def)

text \<open>
  Where the heuristic cleaner returns a cleaned URL, that URL is the serialization of a
  URL object whose query is the serialized list of its parameters, and no parameter of
  that list has a name starting, in any letter case, with \<open>utm_\<close> unless the case-folded
  name is in \<open>keepParams\<close>. The lists of tracking constants play no part.
\<close>

theorem utm_parameters_removed:
  assumes "clean_object parse C input opts = Some (u, ch, from)"
  shows "stripTracking parse C input opts =
           \<lparr>url = strip_trailing (href u), changed = ch, unwrappedFrom = from, error = None\<rparr> \<and>
         query u = non_empty (qs_serialize (searchParams u)) \<and>
         (\<forall>(k, v) \<in> set (searchParams u).
            startsWith (toLowerCase k) ''utm_'' \<longrightarrow> toLowerCase k \<in> set (keep_of opts))"
proof -
  from clean_object_params [OF assms] obtain urlObj where
    "new_URL parse (fst (unwrapKnownRedirectors parse (trim input))) = Some urlObj"
    and "snd (unwrapKnownRedirectors parse (trim input)) = from"
    and s: "searchParams u =
          filter (\<lambda>(k, v). \<not> shouldRemove (keep_of opts) (BAD_PARAMS C opts) k) (searchParams urlObj)"
    and q: "query u = non_empty (qs_serialize (searchParams u))"
    by (elim exE conjE)
  have "\<forall>(k, v) \<in> set (searchParams u).
          startsWith (toLowerCase k) ''utm_'' \<longrightarrow> toLowerCase k \<in> set (keep_of opts)"
    unfolding s by (auto simp: shouldRemove_def Let_def split: if_splits)
  with q stripTracking_of_object [OF assms] show ?thesis by simp
qed

theorem utm_parameters_removed_witness:
  "clean_object demo_parse ex_no_constants ex_utm_link ex_keep_options =
     Some (ex_utm_cleaned, True, None) \<and>
   stripTracking demo_parse ex_no_constants ex_utm_link ex_keep_options =
     \<lparr>url = ''https://example.com/?utm_source=a&utm_keep=c&x=1'', changed = True,
      unwrappedFrom = None, error = None\<rparr>"
proof -
  note a = ex_utm_link_cleaned
  have b: "strip_trailing (href ex_utm_cleaned) = ''https://example.com/?utm_source=a&utm_keep=c&x=1''"
    by code_simp
  from utm_parameters_removed [OF a] a b show ?thesis by simp
qed

text \<open>
  C9: every query parameter whose name starts with \<open>utm_\<close> and is not in \<open>keepParams\<close>
  is to be removed, for every input URL. The code does so on every path that returns a
  cleaned URL, as shown above, but not on this input: it parses, its query holds
  \<open>utm_source\<close>, \<open>keepParams\<close> is empty, the Google rule matches it with the target
  \<open>notaurl\<close>, which does not parse, and the cleaner returns the input with \<open>utm_source\<close>
  still in it.
\<close>

theorem stripTracking_bad_target_keeps_utm:
  "map_option searchParams (new_URL demo_parse ex_bad_target_utm_link) =
     Some [(''q'', ''notaurl''), (''utm_source'', ''x'')] \<and>
   keep_of default_options = [] \<and>
   unwrapKnownRedirectors demo_parse ex_bad_target_utm_link = (''notaurl'', Some ''google'') \<and>
   demo_parse ''notaurl'' = None \<and>
   stripTracking demo_parse ex_no_constants ex_bad_target_utm_link default_options =
     \<lparr>url = ''https://www.google.com/url?q=notaurl&utm_source=x'', changed = False,
      unwrappedFrom = None, error = Some InvalidURL\<rparr>"
  by code_simp

section \<open>The keep list\<close>

lemma unwrap_no_provider:
  "snd (unwrapKnownRedirectors parse s) = None \<Longrightarrow> fst (unwrapKnownRedirectors parse s) = s"
  by (auto simp: unwrapKnownRedirectors_def split: option.splits prod.splits)

text \<open>
  C6, as amended: in the heuristic cleaner, for every name whose case-folded form is in
  \<open>keepParams\<close>, the pairs of that name in the query of the result are exactly the pairs
  of that name in the query of the URL that is cleaned, whatever the tracking lists, the
  extra parameters and the \<open>utm_\<close> prefix rule say; the URL that is cleaned is the input
  when no redirector rule unwraps it, and the redirect target otherwise. The rule engine
  has no keep list.
\<close>

theorem keepParams_preserved:
  assumes "clean_object parse C input opts = Some (u, ch, from)"
    and "toLowerCase p \<in> set (keep_of opts)"
  shows "\<exists>urlObj.
           new_URL parse (fst (unwrapKnownRedirectors parse (trim input))) = Some urlObj \<and>
           filter (\<lambda>(k, v). k = p) (searchParams u) =
             filter (\<lambda>(k, v). k = p) (searchParams urlObj) \<and>
           (from = None \<longrightarrow> fst (unwrapKnownRedirectors parse (trim input)) = trim input)"
proof -
  from clean_object_params [OF assms(1)] obtain urlObj where
    p: "new_URL parse (fst (unwrapKnownRedirectors parse (trim input))) = Some urlObj"
    and f: "snd (unwrapKnownRedirectors parse (trim input)) = from"
    and s: "searchParams u =
          filter (\<lambda>(k, v). \<not> shouldRemove (keep_of opts) (BAD_PARAMS C opts) k) (searchParams urlObj)"
    and "query u = non_empty (qs_serialize (searchParams u))"
    by (elim exE conjE)
  have k: "\<not> shouldRemove (keep_of opts) (BAD_PARAMS C opts) p"
    using assms(2) by (simp add: shouldRemove_def)
  have "filter (\<lambda>(k, v). k = p) (searchParams u) = filter (\<lambda>(k, v). k = p) (searchParams urlObj)"
    unfolding s filter_filter using k by (intro filter_cong) auto
  with p f unwrap_no_provider [of parse "trim input"] show ?thesis by auto
qed

theorem keepParams_preserved_witness:
  "clean_object demo_parse ex_no_constants ex_utm_link ex_keep_options =
     Some (ex_utm_cleaned, True, None) \<and>
   toLowerCase ''utm_source'' \<in> set (keep_of ex_keep_options) \<and>
   filter (\<lambda>(k, v). k = ''utm_source'') (searchParams ex_utm_cleaned) = [(''utm_source'', ''a'')] \<and>
   (\<exists>urlObj. new_URL demo_parse ex_utm_link = Some urlObj \<and>
      filter (\<lambda>(k, v). k = ''utm_source'') (searchParams urlObj) = [(''utm_source'', ''a'')])"
proof -
  note a = ex_utm_link_cleaned
  have b: "toLowerCase ''utm_source'' \<in> set (keep_of ex_keep_options)" by code_simp
  have c: "filter (\<lambda>(k, v). k = ''utm_source'') (searchParams ex_utm_cleaned) = [(''utm_source'', ''a'')]"
    by code_simp
  have d: "trim ex_utm_link = ex_utm_link" by code_simp
  from keepParams_preserved [OF a b] a b c d show ?thesis by auto
qed

text \<open>
  C6 as stated fails for the rule engine, which removes \<open>utm_source\<close> although the
  options list it in \<open>keepParams\<close>, and for the heuristic cleaner on a redirector link,
  whose kept parameter \<open>id\<close> is not in the query of the result.
\<close>

theorem keepParams_not_honoured:
  "toLowerCase ''utm_source'' \<in> set (keep_of ex_keep_options) \<and>
   new_URL demo_parse ex_kept_link = Some ex_kept_obj \<and>
   applyClearUrls demo ex_kept_link (RObject (Some [ex_tracker])) ex_keep_options =
     \<lparr>url = ''https://example.com/?keep=d'', changed = True, unwrappedFrom = None, error = None\<rparr> \<and>
   toLowerCase ''id'' \<in> set (keep_of ex_keep_options) \<and>
   map_option searchParams (new_URL demo_parse ex_wrapped_kept_link) =
     Some [(''q'', ''https://example.com/''), (''id'', ''7'')] \<and>
   stripTracking demo_parse ex_constants ex_wrapped_kept_link ex_keep_options =
     \<lparr>url = ''https://example.com/'', changed = True, unwrappedFrom = Some ''google'',
      error = None\<rparr>"
  by code_simp

section \<open>Cleaning a cleaned URL again\<close>

lemma extend_truncate: "url.extend (url.truncate u) (urlobj.fields (searchParams u)) = (u::urlobj)"
  by (cases u) (simp add: url.defs urlobj.defs)

lemma of_option_non_empty: "of_option (non_empty s) = s"
  by (simp add: of_option_def non_empty_def)

lemma new_URL_reparse:
  assumes "parse s = Some (url.truncate u)"
    and "query u = non_empty (qs_serialize (searchParams u))"
  shows "new_URL parse s = Some u"
proof -
  have "query (url.truncate u) = query u" by (cases u) (simp add: url.defs)
  then have "qs_parse (of_option (query (url.truncate u))) = searchParams u"
    using assms(2) by (simp add: of_option_non_empty qs_parse_serialize)
  then show ?thesis using assms(1) by (simp add: new_URL_def extend_truncate)
qed

lemma normalize_search_fixed:
  "query u = non_empty (qs_serialize (searchParams u)) \<Longrightarrow> normalize_search u = u"
  by (simp add: normalize_search_def set_search_def qs_parse_serialize)

lemma normalize_search_consistent:
  "query (normalize_search u) = non_empty (qs_serialize (searchParams (normalize_search u)))"
  by (simp add: normalize_search_query normalize_search_params)

lemma fold_hash_key_step:
  "fold (hash_key_step keep bad) ks (ps, c) =
     (filter (\<lambda>(k, v). \<not> (shouldRemove keep bad k \<and> k \<in> set ks)) ps,
      c \<or> list_ex (shouldRemove keep bad) ks)"
proof (induction ks arbitrary: ps c)
  case Nil
  then show ?case by simp
next
  case (Cons a ks)
  show ?case
  proof (cases "shouldRemove keep bad a")
    case True
    have "filter (\<lambda>(k, v). \<not> (shouldRemove keep bad k \<and> k \<in> set ks))
            (filter (\<lambda>(k, v). k \<noteq> a) ps) =
          filter (\<lambda>(k, v). \<not> (shouldRemove keep bad k \<and> k \<in> set (a # ks))) ps"
      using True unfolding filter_filter by (intro filter_cong) auto
    then show ?thesis using True Cons [of "filter (\<lambda>(k, v). k \<noteq> a) ps" True]
      by (simp add: hash_key_step_def)
  next
    case False
    have "filter (\<lambda>(k, v). \<not> (shouldRemove keep bad k \<and> k \<in> set ks)) ps =
          filter (\<lambda>(k, v). \<not> (shouldRemove keep bad k \<and> k \<in> set (a # ks))) ps"
      using False by (intro filter_cong) auto
    then show ?thesis using False Cons [of ps c] by (simp add: hash_key_step_def)
  qed
qed

lemma fold_hash_all_keys:
  "fold (hash_key_step keep bad) (map fst ps) (ps, False) =
     (filter (\<lambda>(k, v). \<not> shouldRemove keep bad k) ps,
      list_ex (shouldRemove keep bad) (map fst ps))"
proof -
  have "filter (\<lambda>(k, v). \<not> (shouldRemove keep bad k \<and> k \<in> set (map fst ps))) ps =
        filter (\<lambda>(k, v). \<not> shouldRemove keep bad k) ps"
    by (intro filter_cong) force+
  then show ?thesis using fold_hash_key_step [of keep bad "map fst ps" ps False] by simp
qed

lemma strip_hash_eq:
  "strip_hash keep bad st =
     (if hash_dirty keep bad (hash_of (fst st))
      then (set_hash (fst st)
              (qs_serialize (filter (\<lambda>(k, v). \<not> shouldRemove keep bad k)
                 (hash_params (hash_of (fst st))))), True)
      else st)"
  by (simp add: strip_hash_def Let_def hash_dirty_def hash_params_def fold_hash_all_keys)

lemma strip_hash_clean:
  "\<not> hash_dirty keep bad (hash_of u) \<Longrightarrow> strip_hash keep bad (u, c) = (u, c)"
  by (simp add: strip_hash_eq)

lemma encode_byte_no_qmark: "CHR ''?'' \<notin> set (encode_byte c)"
proof (cases "c = CHR '' ''")
  case True
  then show ?thesis by (simp add: encode_byte_def)
next
  case False
  show ?thesis
  proof (cases "url_safe c")
    case True
    then have "c \<noteq> CHR ''?''" by (auto simp: url_safe_def)
    with False True show ?thesis by (simp add: encode_byte_def)
  next
    case u: False
    have q: "hex_digit n \<noteq> CHR ''?''" if "n < 16" for n
    proof
      assume "hex_digit n = CHR ''?''"
      then have "(of_char (hex_digit n) :: nat) = 63" by simp
      with of_char_hex_digit [OF that] that show False by (simp split: if_splits)
    qed
    have "of_char c mod 16 < (16::nat)" by simp
    from q [OF of_char_div_16, of c] q [OF this] show ?thesis
      using False u by (simp add: encode_byte_def)
  qed
qed

lemma byte_serialize_no_qmark: "CHR ''?'' \<notin> set (byte_serialize s)"
  using encode_byte_no_qmark by (auto simp: byte_serialize_def)

lemma join_amp_set: "set (join_amp xs) \<subseteq> insert CHR ''&'' (\<Union>x \<in> set xs. set x)"
  by (induction xs rule: join_amp.induct) auto

lemma qs_serialize_no_qmark: "CHR ''?'' \<notin> set (qs_serialize ps)"
proof -
  have "CHR ''?'' \<notin> set (pair_text kv)" for kv
    using byte_serialize_no_qmark by (simp add: pair_text_def)
  then show ?thesis using join_amp_set [of "map pair_text ps"] by (auto simp: qs_serialize_def)
qed

lemma strip_first_absent: "c \<notin> set s \<Longrightarrow> strip_first c s = s"
  by (cases s) (auto simp: strip_first_def)

lemma hash_params_serialized:
  "qs_serialize ps \<noteq> [] \<Longrightarrow> hash_params (CHR ''#'' # qs_serialize ps) = ps"
  by (simp add: hash_params_def new_URLSearchParams_def strip_hash_prefix_def
      strip_first_absent qs_serialize_no_qmark qs_parse_serialize)

lemma filter_not_selected:
  "\<not> list_ex R (map fst (filter (\<lambda>(k, v). \<not> R k) ps))"
  by (auto simp: list_ex_iff)

lemma strip_hash_result_clean:
  "\<not> hash_dirty keep bad (hash_of (fst (strip_hash keep bad st)))"
proof (cases "hash_dirty keep bad (hash_of (fst st))")
  case False
  then show ?thesis by (simp add: strip_hash_eq)
next
  case True
  let ?rem = "filter (\<lambda>(k, v). \<not> shouldRemove keep bad k) (hash_params (hash_of (fst st)))"
  have h: "hash_of (set_hash (fst st) (qs_serialize ?rem)) =
           (if qs_serialize ?rem = [] then [] else CHR ''#'' # qs_serialize ?rem)"
    by (simp add: hash_of_def set_hash_def non_empty_def)
  show ?thesis
  proof (cases "qs_serialize ?rem = []")
    case e: True
    with True h show ?thesis by (simp add: strip_hash_eq hash_dirty_def)
  next
    case ne: False
    have ns: "\<not> list_ex (shouldRemove keep bad) (map fst ?rem)" by (rule filter_not_selected)
    from True h hash_params_serialized [OF ne] ns
    show ?thesis by (simp add: strip_hash_eq hash_dirty_def)
  qed
qed

lemma hash_of_normalize_search: "hash_of (normalize_search u) = hash_of u"
  by (simp add: hash_of_def normalize_search_def set_search_def)

lemma unwrap_no_match:
  "new_URL parse s = Some u \<Longrightarrow> \<not> redirector_match u \<Longrightarrow>
   unwrapKnownRedirectors parse s = (s, None)"
  by (auto simp: unwrapKnownRedirectors_def google_rule_def facebook_rule_def instagram_rule_def
      redirector_match_def google_match_def facebook_match_def instagram_match_def
      google_host_def facebook_host_def instagram_host_def google_target_def Let_def)

lemma clean_object_again:
  assumes c: "clean_object parse C input opts = Some (u, ch, from)"
    and r: "parse (trim (strip_trailing (href u))) = Some (url.truncate u)"
    and m: "\<not> redirector_match u"
  shows "clean_object parse C (strip_trailing (href u)) opts = Some (u, False, None)"
proof -
  let ?keep = "keep_of opts" and ?bad = "BAD_PARAMS C opts"
  let ?X = "trim (strip_trailing (href u))"
  obtain raw fr where uw: "unwrapKnownRedirectors parse (trim input) = (raw, fr)"
    by (cases "unwrapKnownRedirectors parse (trim input)")
  from c uw obtain urlObj where p: "new_URL parse raw = Some urlObj"
    by (auto simp: clean_object_def Let_def split: option.splits)
  let ?q = "strip_query ?keep ?bad (urlObj, fr \<noteq> None)"
  let ?h = "strip_hash ?keep ?bad ?q"
  from c uw p have u: "u = normalize_search (fst ?h)"
    by (auto simp: clean_object_def Let_def split: prod.splits)
  have cons: "query u = non_empty (qs_serialize (searchParams u))"
    unfolding u by (rule normalize_search_consistent)
  have n: "new_URL parse ?X = Some u" using r cons by (rule new_URL_reparse)
  have w: "unwrapKnownRedirectors parse ?X = (?X, None)" using n m by (rule unwrap_no_match)
  have sp: "searchParams u = filter (\<lambda>(k, v). \<not> shouldRemove ?keep ?bad k) (searchParams urlObj)"
    unfolding u by (simp add: normalize_search_params strip_hash_params strip_query_params)
  have nq: "\<not> list_ex (shouldRemove ?keep ?bad) (map fst (searchParams u))"
    unfolding sp by (rule filter_not_selected)
  have q: "strip_query ?keep ?bad (u, False) = (u, False)"
    using nq by (simp add: strip_query_eq)
  have "\<not> hash_dirty ?keep ?bad (hash_of u)"
    unfolding u hash_of_normalize_search by (rule strip_hash_result_clean)
  then have h: "strip_hash ?keep ?bad (u, False) = (u, False)" by (rule strip_hash_clean)
  show ?thesis
    using n w q h normalize_search_fixed [OF cons] by (simp add: clean_object_def Let_def)
qed

lemma provider_targets_quiet: "provider_quiet P allowRef u p \<Longrightarrow> provider_targets P (href u) p = []"
  by (simp add: provider_quiet_def provider_targets_def split: if_splits)

lemma redirect_targets_quiet:
  "ruleset_quiet P allowRef providers u \<Longrightarrow> redirect_targets P (href u) providers = []"
  by (induction providers)
    (auto simp: ruleset_quiet_def redirect_targets_def dest: provider_targets_quiet)

lemma redirection_pass_quiet:
  "ruleset_quiet P allowRef providers u \<Longrightarrow> redirection_pass P providers u = (u, False)"
  by (simp add: redirection_pass_def Let_def fold_redirect_provider redirect_targets_quiet)

lemma rawRule_step_quiet: "raw_rule_quiet P (href u) raw \<Longrightarrow> rawRule_step P raw (u, c) = (u, c)"
  by (auto simp: raw_rule_quiet_def rawRule_step_def Let_def split: option.splits)

lemma fold_rawRule_step_quiet:
  "list_all (raw_rule_quiet P (href u)) raws \<Longrightarrow> fold (rawRule_step P) raws (u, c) = (u, c)"
  by (induction raws) (simp_all add: rawRule_step_quiet)

lemma clean_provider_quiet:
  "provider_quiet P allowRef u p \<Longrightarrow> clean_provider P allowRef p (u, c) = (u, c)"
  by (simp add: provider_quiet_def clean_provider_def remove_params_eq fold_rawRule_step_quiet
      split: if_splits)

lemma removal_pass_quiet:
  "ruleset_quiet P allowRef providers u \<Longrightarrow> removal_pass P allowRef providers (u, c) = (u, c)"
  unfolding removal_pass_def ruleset_quiet_def
  by (induction providers) (simp_all add: clean_provider_quiet)

lemma apply_object_again:
  assumes a: "apply_object P inputUrl providers opts = Some (w, wch)"
    and r: "url_parse P (trim (strip_trailing (href w))) = Some (url.truncate w)"
    and q: "ruleset_quiet P (allowReferral opts) providers w"
  shows "apply_object P (strip_trailing (href w)) providers opts = Some (w, False)"
proof -
  from a obtain w2 where "w = normalize_search w2"
    by (auto simp: apply_object_def split: option.splits prod.splits)
  then have cons: "query w = non_empty (qs_serialize (searchParams w))"
    by (simp add: normalize_search_consistent)
  have n: "new_URL (url_parse P) (trim (strip_trailing (href w))) = Some w"
    using r cons by (rule new_URL_reparse)
  show ?thesis
    using n redirection_pass_quiet [OF q] removal_pass_quiet [OF q] normalize_search_fixed [OF cons]
    by (simp add: apply_object_def)
qed

lemma unwrap_match:
  "new_URL parse s = Some u \<Longrightarrow> redirector_match u \<Longrightarrow>
   snd (unwrapKnownRedirectors parse s) \<noteq> None"
  by (auto simp: unwrapKnownRedirectors_def google_rule_def facebook_rule_def instagram_rule_def
      redirector_match_def google_match_def facebook_match_def instagram_match_def
      google_host_def facebook_host_def instagram_host_def google_target_def Let_def)

lemma stripTracking_no_provider:
  assumes "stripTracking parse C input opts =
             \<lparr>url = x, changed = c, unwrappedFrom = None, error = None\<rparr>"
  shows "snd (unwrapKnownRedirectors parse (trim input)) = None"
proof (cases "clean_object parse C input opts")
  case None
  with assms show ?thesis by (simp add: stripTracking_def invalid_url_def)
next
  case (Some r)
  obtain u ch fr where r: "r = (u, ch, fr)" by (cases r)
  with Some assms have "fr = None" by (simp add: stripTracking_def)
  with clean_object_params [of parse C input opts u ch fr] Some r show ?thesis by auto
qed

lemma rawRule_step_mono: "snd st \<Longrightarrow> snd (rawRule_step P raw st)"
  by (simp add: rawRule_step_def Let_def split: option.splits)

lemma fold_rawRule_step_mono: "snd st \<Longrightarrow> snd (fold (rawRule_step P) raws st)"
  by (induction raws arbitrary: st) (simp_all add: rawRule_step_mono)

lemma rawRule_step_not_quiet:
  "\<not> raw_rule_quiet P (href u) raw \<Longrightarrow> snd (rawRule_step P raw (u, c))"
  by (auto simp: raw_rule_quiet_def rawRule_step_def Let_def split: option.splits)

lemma fold_rawRule_step_not_quiet:
  "\<not> list_all (raw_rule_quiet P (href u)) raws \<Longrightarrow> snd (fold (rawRule_step P) raws (u, c))"
proof (induction raws)
  case Nil
  then show ?case by simp
next
  case (Cons raw raws)
  show ?case
  proof (cases "raw_rule_quiet P (href u) raw")
    case True
    with Cons show ?thesis by (simp add: rawRule_step_quiet)
  next
    case False
    then show ?thesis by (simp add: rawRule_step_not_quiet fold_rawRule_step_mono)
  qed
qed

lemma remove_params_mono: "snd st \<Longrightarrow> snd (remove_params P entries st)"
  by (cases st) (simp add: remove_params_eq)

lemma clean_provider_mono: "snd st \<Longrightarrow> snd (clean_provider P allowRef p st)"
  by (simp add: clean_provider_def fold_rawRule_step_mono remove_params_mono)

lemma removal_pass_mono: "snd st \<Longrightarrow> snd (removal_pass P allowRef providers st)"
  unfolding removal_pass_def
  by (induction providers arbitrary: st) (simp_all add: clean_provider_mono)

lemma clean_provider_not_quiet:
  assumes "\<not> provider_quiet P allowRef u p" and "provider_targets P (href u) p = []"
  shows "snd (clean_provider P allowRef p (u, c))"
proof -
  from assms have a: "provider_applies P p (href u)"
    and d: "list_ex (removal_rule P (rawEntries_of allowRef p)) (map fst (searchParams u)) \<or>
            \<not> list_all (raw_rule_quiet P (href u)) (asList (rawRules p))"
    by (auto simp: provider_quiet_def split: if_splits)
  show ?thesis
  proof (cases "list_ex (removal_rule P (rawEntries_of allowRef p)) (map fst (searchParams u))")
    case True
    then have "snd (remove_params P (rawEntries_of allowRef p) (u, c))"
      by (simp add: remove_params_eq)
    then show ?thesis using a by (simp add: clean_provider_def fold_rawRule_step_mono)
  next
    case False
    with d have "\<not> list_all (raw_rule_quiet P (href u)) (asList (rawRules p))" by simp
    then show ?thesis using a False
      by (simp add: clean_provider_def remove_params_eq fold_rawRule_step_not_quiet)
  qed
qed

lemma removal_pass_not_quiet:
  assumes "\<not> ruleset_quiet P allowRef providers u"
    and "redirect_targets P (href u) providers = []"
  shows "snd (removal_pass P allowRef providers (u, c))"
  using assms
proof (induction providers)
  case Nil
  then show ?case by (simp add: ruleset_quiet_def)
next
  case (Cons p ps)
  from Cons.prems(2) have t: "provider_targets P (href u) p = []"
    and ts: "redirect_targets P (href u) ps = []"
    by (simp_all add: redirect_targets_def)
  show ?case
  proof (cases "provider_quiet P allowRef u p")
    case True
    with Cons.prems(1) have "\<not> ruleset_quiet P allowRef ps u" by (simp add: ruleset_quiet_def)
    from Cons.IH [OF this ts] True show ?thesis
      by (simp add: removal_pass_def clean_provider_quiet)
  next
    case False
    from clean_provider_not_quiet [OF False t]
    have "snd (clean_provider P allowRef p (u, c))" .
    then have "snd (removal_pass P allowRef ps (clean_provider P allowRef p (u, c)))"
      by (rule removal_pass_mono)
    then show ?thesis by (simp add: removal_pass_def)
  qed
qed

lemma passes_not_quiet:
  assumes "\<not> ruleset_quiet P allowRef providers u"
  shows "snd (removal_pass P allowRef providers (redirection_pass P providers u))"
proof (cases "redirect_targets P (href u) providers = []")
  case True
  then have "redirection_pass P providers u = (u, False)"
    by (simp add: redirection_pass_def Let_def fold_redirect_provider)
  with removal_pass_not_quiet [OF assms True] show ?thesis by simp
next
  case False
  then have "snd (redirection_pass P providers u)"
    by (simp add: redirection_pass_def Let_def fold_redirect_provider)
  then show ?thesis by (rule removal_pass_mono)
qed

lemma apply_object_not_quiet:
  assumes "new_URL (url_parse P) (trim s) = Some u"
    and "\<not> ruleset_quiet P (allowReferral opts) providers u"
  shows "changed (applyClearUrls P s (RObject (Some providers)) opts)"
proof -
  obtain w c where r: "removal_pass P (allowReferral opts) providers
      (redirection_pass P providers u) = (w, c)"
    by (cases "removal_pass P (allowReferral opts) providers (redirection_pass P providers u)")
  with passes_not_quiet [OF assms(2)] have "c" by simp
  with assms(1) r show ?thesis
    by (simp add: applyClearUrls_def apply_providers_def apply_object_def)
qed

lemma apply_object_consistent:
  "apply_object P inputUrl providers opts = Some (w, wch) \<Longrightarrow>
   query w = non_empty (qs_serialize (searchParams w))"
  by (auto simp: apply_object_def normalize_search_consistent split: option.splits prod.splits)

lemma clean_object_consistent:
  "clean_object parse C input opts = Some (u, ch, from) \<Longrightarrow>
   query u = non_empty (qs_serialize (searchParams u))"
  using clean_object_params [of parse C input opts u ch "from"] by auto

text \<open>
  C3, as amended: when the URL a run returns parses back to the URL value it was
  serialized from, a second run returns that URL again with \<open>changed = false\<close> exactly
  when the URL is already clean. For the heuristic cleaner already clean means that no
  redirector rule matches it (its query and hash never hold a removable key); for the rule
  engine it means that no rule of a provider applying to it yields a redirection target,
  selects a key or changes the text into another URL.
\<close>

theorem recleaning_clean_url:
  "(clean_object parse C input opts = Some (u, ch, from) \<and>
    parse (trim (strip_trailing (href u))) = Some (url.truncate u) \<longrightarrow>
      url (stripTracking parse C input opts) = strip_trailing (href u) \<and>
      (stripTracking parse C (strip_trailing (href u)) opts =
         \<lparr>url = strip_trailing (href u), changed = False, unwrappedFrom = None, error = None\<rparr>
       \<longleftrightarrow> \<not> redirector_match u)) \<and>
   (apply_object P inputUrl providers opts = Some (w, wch) \<and>
    url_parse P (trim (strip_trailing (href w))) = Some (url.truncate w) \<longrightarrow>
      url (applyClearUrls P inputUrl (RObject (Some providers)) opts) = strip_trailing (href w) \<and>
      (applyClearUrls P (strip_trailing (href w)) (RObject (Some providers)) opts =
         \<lparr>url = strip_trailing (href w), changed = False, unwrappedFrom = None, error = None\<rparr>
       \<longleftrightarrow> ruleset_quiet P (allowReferral opts) providers w))"
proof (intro conjI impI)
  assume h: "clean_object parse C input opts = Some (u, ch, from) \<and>
    parse (trim (strip_trailing (href u))) = Some (url.truncate u)"
  then have c: "clean_object parse C input opts = Some (u, ch, from)"
    and r: "parse (trim (strip_trailing (href u))) = Some (url.truncate u)"
    by simp_all
  have n: "new_URL parse (trim (strip_trailing (href u))) = Some u"
    using r clean_object_consistent [OF c] by (rule new_URL_reparse)
  show "url (stripTracking parse C input opts) = strip_trailing (href u)"
    using stripTracking_of_object [OF c] by simp
  show "stripTracking parse C (strip_trailing (href u)) opts =
         \<lparr>url = strip_trailing (href u), changed = False, unwrappedFrom = None, error = None\<rparr>
       \<longleftrightarrow> \<not> redirector_match u"
  proof
    assume "stripTracking parse C (strip_trailing (href u)) opts =
         \<lparr>url = strip_trailing (href u), changed = False, unwrappedFrom = None, error = None\<rparr>"
    then have "snd (unwrapKnownRedirectors parse (trim (strip_trailing (href u)))) = None"
      by (rule stripTracking_no_provider)
    with unwrap_match [OF n] show "\<not> redirector_match u" by blast
  next
    assume m: "\<not> redirector_match u"
    from c r m have "clean_object parse C (strip_trailing (href u)) opts = Some (u, False, None)"
      by (rule clean_object_again)
    then show "stripTracking parse C (strip_trailing (href u)) opts =
         \<lparr>url = strip_trailing (href u), changed = False, unwrappedFrom = None, error = None\<rparr>"
      by (rule stripTracking_of_object)
  qed
next
  assume h: "apply_object P inputUrl providers opts = Some (w, wch) \<and>
    url_parse P (trim (strip_trailing (href w))) = Some (url.truncate w)"
  then have a: "apply_object P inputUrl providers opts = Some (w, wch)"
    and r: "url_parse P (trim (strip_trailing (href w))) = Some (url.truncate w)"
    by simp_all
  have n: "new_URL (url_parse P) (trim (strip_trailing (href w))) = Some w"
    using r apply_object_consistent [OF a] by (rule new_URL_reparse)
  show "url (applyClearUrls P inputUrl (RObject (Some providers)) opts) = strip_trailing (href w)"
    using a by (simp add: applyClearUrls_def apply_providers_def)
  show "applyClearUrls P (strip_trailing (href w)) (RObject (Some providers)) opts =
         \<lparr>url = strip_trailing (href w), changed = False, unwrappedFrom = None, error = None\<rparr>
       \<longleftrightarrow> ruleset_quiet P (allowReferral opts) providers w"
  proof
    assume e: "applyClearUrls P (strip_trailing (href w)) (RObject (Some providers)) opts =
         \<lparr>url = strip_trailing (href w), changed = False, unwrappedFrom = None, error = None\<rparr>"
    show "ruleset_quiet P (allowReferral opts) providers w"
    proof (rule ccontr)
      assume "\<not> ruleset_quiet P (allowReferral opts) providers w"
      from apply_object_not_quiet [OF n this] e show False by simp
    qed
  next
    assume q: "ruleset_quiet P (allowReferral opts) providers w"
    from a r q have "apply_object P (strip_trailing (href w)) providers opts = Some (w, False)"
      by (rule apply_object_again)
    then show "applyClearUrls P (strip_trailing (href w)) (RObject (Some providers)) opts =
         \<lparr>url = strip_trailing (href w), changed = False, unwrappedFrom = None, error = None\<rparr>"
      by (simp add: applyClearUrls_def apply_providers_def)
  qed
qed

theorem recleaning_clean_url_witness:
  "clean_object demo_parse ex_no_constants ex_utm_link ex_keep_options =
     Some (ex_utm_cleaned, True, None) \<and>
   demo_parse (trim (strip_trailing (href ex_utm_cleaned))) = Some (url.truncate ex_utm_cleaned) \<and>
   \<not> redirector_match ex_utm_cleaned \<and>
   url (stripTracking demo_parse ex_no_constants ex_utm_link ex_keep_options) =
     ''https://example.com/?utm_source=a&utm_keep=c&x=1'' \<and>
   stripTracking demo_parse ex_no_constants ''https://example.com/?utm_source=a&utm_keep=c&x=1''
       ex_keep_options =
     \<lparr>url = ''https://example.com/?utm_source=a&utm_keep=c&x=1'', changed = False,
      unwrappedFrom = None, error = None\<rparr> \<and>
   apply_object demo ex_kept_link [ex_tracker] ex_keep_options = Some (ex_kept_cleaned, True) \<and>
   url_parse demo (trim (strip_trailing (href ex_kept_cleaned))) =
     Some (url.truncate ex_kept_cleaned) \<and>
   ruleset_quiet demo (allowReferral ex_keep_options) [ex_tracker] ex_kept_cleaned \<and>
   url (applyClearUrls demo ex_kept_link (RObject (Some [ex_tracker])) ex_keep_options) =
     ''https://example.com/?keep=d'' \<and>
   applyClearUrls demo ''https://example.com/?keep=d'' (RObject (Some [ex_tracker]))
       ex_keep_options =
     \<lparr>url = ''https://example.com/?keep=d'', changed = False, unwrappedFrom = None, error = None\<rparr>"
proof -
  note a = ex_utm_link_cleaned
  have b: "demo_parse (trim (strip_trailing (href ex_utm_cleaned))) = Some (url.truncate ex_utm_cleaned)"
    by code_simp
  have c: "\<not> redirector_match ex_utm_cleaned" by code_simp
  have d: "strip_trailing (href ex_utm_cleaned) = ''https://example.com/?utm_source=a&utm_keep=c&x=1''"
    by code_simp
  have e: "apply_object demo ex_kept_link [ex_tracker] ex_keep_options = Some (ex_kept_cleaned, True)"
    by code_simp
  have f: "url_parse demo (trim (strip_trailing (href ex_kept_cleaned))) =
     Some (url.truncate ex_kept_cleaned)"
    by code_simp
  have g: "ruleset_quiet demo (allowReferral ex_keep_options) [ex_tracker] ex_kept_cleaned"
    by code_simp
  have i: "strip_trailing (href ex_kept_cleaned) = ''https://example.com/?keep=d''"
    by code_simp
  note t = recleaning_clean_url [of demo_parse ex_no_constants ex_utm_link ex_keep_options
      ex_utm_cleaned True None demo ex_kept_link "[ex_tracker]" ex_kept_cleaned True]
  from t a b c have h1:
    "url (stripTracking demo_parse ex_no_constants ex_utm_link ex_keep_options) =
       strip_trailing (href ex_utm_cleaned)"
    and h2: "stripTracking demo_parse ex_no_constants (strip_trailing (href ex_utm_cleaned))
       ex_keep_options =
     \<lparr>url = strip_trailing (href ex_utm_cleaned), changed = False, unwrappedFrom = None,
      error = None\<rparr>"
    by blast+
  from t e f g have h3:
    "url (applyClearUrls demo ex_kept_link (RObject (Some [ex_tracker])) ex_keep_options) =
       strip_trailing (href ex_kept_cleaned)"
    and h4: "applyClearUrls demo (strip_trailing (href ex_kept_cleaned))
       (RObject (Some [ex_tracker])) ex_keep_options =
     \<lparr>url = strip_trailing (href ex_kept_cleaned), changed = False, unwrappedFrom = None,
      error = None\<rparr>"
    by blast+
  note u1 = h1 [unfolded d] and u2 = h3 [unfolded i]
  note s1 = h2 [unfolded d] and s2 = h4 [unfolded i]
  from a b c e f g u1 u2 s1 s2 show ?thesis by (intro conjI)
qed

text \<open>
  C3 as stated fails on links wrapped twice: each run of the heuristic cleaner
  unwraps one redirector, and each run of the rule engine follows the redirections that
  match its input, so the second run changes the URL again and reports \<open>changed = true\<close>.
\<close>

theorem recleaning_unwraps_again:
  "stripTracking demo_parse ex_constants ex_nested_link default_options =
     \<lparr>url = ex_nested_once, changed = True, unwrappedFrom = Some ''google'', error = None\<rparr> \<and>
   stripTracking demo_parse ex_constants ex_nested_once default_options =
     \<lparr>url = ''https://example.com/'', changed = True, unwrappedFrom = Some ''facebook'',
      error = None\<rparr> \<and>
   ex_nested_once \<noteq> ''https://example.com/'' \<and>
   applyClearUrls demo ex_wrapped_twice (RObject (Some [ex_both_hops])) default_options =
     \<lparr>url = ex_wrapped_once, changed = True, unwrappedFrom = None, error = None\<rparr> \<and>
   applyClearUrls demo ex_wrapped_once (RObject (Some [ex_both_hops])) default_options =
     \<lparr>url = ''https://third.example/'', changed = True, unwrappedFrom = None, error = None\<rparr> \<and>
   ex_wrapped_once \<noteq> ''https://third.example/''"
  by code_simp

end
